theory Spec2Isabelle
  imports Main "HOL-Library.Word"
begin

section \<open>Errors\<close>

text \<open>
  Every exception the modelled Python raises is a value. The arguments of
  \<open>TensorMetaMismatchError\<close> are strings, shapes or numbers in the source.
\<close>

datatype arg = Str string | Shape "nat list" | Num nat

datatype error =
    ValueError
  | IndexError
  | KeyError
  | TypeError
  | Exception string
  | NotImplementedError string
  | TensorMetaMismatchError arg arg arg
  | TensorDoesNotExistError string
  | TensorAlreadyExistsError string
  | KeyNotFound
  | OutOfRange
  | OverflowError

section \<open>Chunk names (hub/core/meta/encode/chunk\_name.py)\<close>

type_synonym chunk_id = "64 word"

subsection \<open>Rendering: \<open>hex(id)[2:]\<close>\<close>

definition hex_digit :: "nat \<Rightarrow> char" where
  "hex_digit d = ''0123456789abcdef'' ! d"

text \<open>The digits of a positive number, most significant first; empty for 0.\<close>

function hex_digits :: "nat \<Rightarrow> string" where
  "hex_digits n = (if n = 0 then [] else hex_digits (n div 16) @ [hex_digit (n mod 16)])"
  by pat_completeness auto
termination
  by (relation "measure id") auto

declare hex_digits.simps [simp del]

text \<open>Python's \<open>hex\<close> on a non-negative integer: the prefix \<open>0x\<close>, then the digits.\<close>

definition hex :: "nat \<Rightarrow> string" where
  "hex n = ''0x'' @ (if n = 0 then ''0'' else hex_digits n)"

definition chunk_name_from_id :: "chunk_id \<Rightarrow> string" where
  "chunk_name_from_id i = drop 2 (hex (unat i))"

subsection \<open>Parsing: \<open>int("0x" + name, 16)\<close>\<close>

definition digit_value :: "char \<Rightarrow> nat option" where
  "digit_value c =
     (let k = of_char c :: nat in
      if 48 \<le> k \<and> k \<le> 57 then Some (k - 48)
      else if 97 \<le> k \<and> k \<le> 102 then Some (k - 87)
      else if 65 \<le> k \<and> k \<le> 70 then Some (k - 55)
      else None)"

text \<open>
  A character of a string is a code point below 256. The white space that \<open>int\<close> skips
  is the white space of C (tab to carriage return, and the blank) and, beyond ASCII, the
  Unicode spaces \<open>U+0085\<close> and \<open>U+00A0\<close>, which \<open>int\<close> first turns into blanks.
\<close>

definition is_space :: "char \<Rightarrow> bool" where
  "is_space c = (let k = of_char c :: nat in (9 \<le> k \<and> k \<le> 13) \<or> k = 32 \<or> k = 133 \<or> k = 160)"

definition is_body_char :: "char \<Rightarrow> bool" where
  "is_body_char c = (digit_value c \<noteq> None \<or> c = CHR ''_'')"

fun no_double_underscore :: "string \<Rightarrow> bool" where
  "no_double_underscore (a # b # cs) =
     (\<not> (a = CHR ''_'' \<and> b = CHR ''_'') \<and> no_double_underscore (b # cs))"
| "no_double_underscore _ = True"

definition digits_value :: "string \<Rightarrow> nat" where
  "digits_value ds = foldl (\<lambda>acc c. acc * 16 + the (digit_value c)) 0 ds"

text \<open>
  Python's \<open>int(s, 16)\<close> on \<open>s = "0x" + name\<close>. The string starts with the base
  prefix, so there is no leading white space and no sign to strip. After the prefix one
  underscore is allowed; then comes a run of hexadecimal digits (either case) with single
  underscores between them, which may not start or end with an underscore and must hold
  a digit; only white space may follow. Anything else is a \<open>ValueError\<close>.
\<close>

definition int16_after_prefix :: "string \<Rightarrow> error + int" where
  "int16_after_prefix name =
     (let s = (case name of c # cs \<Rightarrow> (if c = CHR ''_'' then cs else name) | [] \<Rightarrow> name);
          body = takeWhile is_body_char s;
          trailer = dropWhile is_body_char s
      in if body = [] \<or> hd body = CHR ''_'' \<or> last body = CHR ''_''
            \<or> \<not> no_double_underscore body \<or> \<not> list_all is_space trailer
         then Inl ValueError
         else Inr (int (digits_value (filter (\<lambda>c. c \<noteq> CHR ''_'') body))))"

definition chunk_id_from_name :: "string \<Rightarrow> error + int" where
  "chunk_id_from_name name = int16_after_prefix name"

definition is_lower_hex :: "char \<Rightarrow> bool" where
  "is_lower_hex c = (c \<in> set ''0123456789abcdef'')"

section \<open>The chunk-name encoder (class ChunkNameEncoder)\<close>

text \<open>
  \<open>_encoded\<close> is \<open>None\<close> or an array of rows \<open>[chunk_id, last_index]\<close> of dtype
  \<open>np.uint64\<close>, and \<open>_connectivity\<close> is \<open>None\<close> or an array of booleans. A cell of
  \<open>_encoded\<close> is a 64-bit word.
\<close>

type_synonym cell = "64 word"

record chunk_name_encoder =
  encoded :: "(chunk_id \<times> cell) list option"
  connectivity :: "bool list option"

definition init_encoder :: chunk_name_encoder where
  "init_encoder = \<lparr>encoded = None, connectivity = None\<rparr>"

definition num_chunks :: "chunk_name_encoder \<Rightarrow> nat" where
  "num_chunks e = (case encoded e of None \<Rightarrow> 0 | Some es \<Rightarrow> length es)"

subsection \<open>Arithmetic on a cell\<close>

text \<open>
  The encoder adds a Python integer to a cell in two places:
  \<open>self._encoded[-1, LAST_INDEX_INDEX] + 1\<close> in \<open>num_samples\<close> and
  \<open>last_entry[LAST_INDEX_INDEX] += num_samples\<close> in \<open>extend_chunk\<close>. What the sum is
  depends on the NumPy release that runs the code, so both sums are arguments of the
  functions below: \<open>succ c\<close> is the number \<open>int(c + 1)\<close>, and \<open>iadd c n\<close> is the cell
  after \<open>c += n\<close>, or the exception raised.

  NumPy 2 keeps the sum of a \<open>uint64\<close> scalar and a Python integer in \<open>uint64\<close>: it
  refuses an integer that does not fit into the type with \<open>OverflowError\<close>, and the sum
  wraps around at \<open>2 ^ 64\<close>.
\<close>

definition numpy2_succ :: "cell \<Rightarrow> nat" where
  "numpy2_succ c = unat (c + 1)"

definition numpy2_iadd :: "cell \<Rightarrow> int \<Rightarrow> error + cell" where
  "numpy2_iadd c n = (if n < 0 \<or> 2 ^ 64 \<le> n then Inl OverflowError else Inr (c + word_of_int n))"

text \<open>
  NumPy 1 promotes a \<open>uint64\<close> scalar and a Python integer to double precision, and
  \<open>int\<close> of the sum is the number the double holds. A double holds every natural number
  up to \<open>2 ^ 53\<close>; a larger one is rounded to 53 significant bits, to the nearest
  multiple of the spacing and to the even multiple when two are equally near.
\<close>

function bit_length :: "nat \<Rightarrow> nat" where
  "bit_length n = (if n = 0 then 0 else Suc (bit_length (n div 2)))"
  by pat_completeness auto
termination
  by (relation "measure id") auto

declare bit_length.simps [simp del]

definition round_double :: "nat \<Rightarrow> nat" where
  "round_double x =
     (if x \<le> 2 ^ 53 then x
      else (let e = bit_length x - 53;
                q = x div 2 ^ e;
                r = x mod 2 ^ e;
                h = 2 ^ (e - 1)
            in if r < h \<or> (r = h \<and> even q) then q * 2 ^ e else (q + 1) * 2 ^ e))"

definition numpy1_succ :: "cell \<Rightarrow> nat" where
  "numpy1_succ c = round_double (round_double (unat c) + 1)"

text \<open>
  \<open>np.array([[id, v]], dtype=np.uint64)\<close> for a Python integer \<open>v \<ge> 0\<close>: the cell holds
  \<open>v\<close>, which must fit into it.
\<close>

definition uint64_cell :: "nat \<Rightarrow> error + cell" where
  "uint64_cell v = (if v < 2 ^ 64 then Inr (of_nat v) else Inl OverflowError)"

subsection \<open>The methods\<close>

definition num_samples :: "(cell \<Rightarrow> nat) \<Rightarrow> chunk_name_encoder \<Rightarrow> error + nat" where
  "num_samples succ e =
     (case encoded e of
        None \<Rightarrow> Inr 0
      | Some es \<Rightarrow> (if es = [] then Inl IndexError else Inr (succ (snd (last es)))))"




text \<open>The number in the last-index cell of a row.\<close>

definition last_index_of :: "chunk_id \<times> cell \<Rightarrow> nat" where
  "last_index_of row = unat (snd row)"




text \<open>
  \<open>extend_chunk\<close> and \<open>append_chunk\<close> return the name of the last chunk and leave the
  encoder changed; the model returns both. The id drawn by \<open>_generate_chunk_id\<close> is an
  argument of \<open>append_chunk\<close>.
\<close>

definition extend_chunk ::
  "(cell \<Rightarrow> nat) \<Rightarrow> (cell \<Rightarrow> int \<Rightarrow> error + cell) \<Rightarrow> chunk_name_encoder \<Rightarrow> int \<Rightarrow> bool
     \<Rightarrow> error + (string \<times> chunk_name_encoder)" where
  "extend_chunk succ iadd e n connected_to_next =
     (if n \<le> 0 then Inl ValueError
      else
        (case num_samples succ e of
           Inl err \<Rightarrow> Inl err
         | Inr ns \<Rightarrow>
             if ns = 0 then Inl (Exception ''Cannot extend the previous chunk because it doesn't exist.'')
             else
               (case (encoded e, connectivity e) of
                  (Some es, Some cs) \<Rightarrow>
                    if cs = [] then Inl IndexError
                    else if last cs then Inl (Exception
                           ''Cannot extend a chunk that is already marked as `connected_to_next`.'')
                    else
                      (case iadd (snd (last es)) n of
                         Inl err \<Rightarrow> Inl err
                       | Inr c \<Rightarrow>
                           (let last_entry = (fst (last es), c)
                            in Inr (chunk_name_from_id (fst last_entry),
                                    \<lparr>encoded = Some (butlast es @ [last_entry]),
                                     connectivity = Some (butlast cs @ [connected_to_next])\<rparr>)))
                | _ \<Rightarrow> Inl TypeError)))"

text \<open>
  In \<open>append_chunk\<close> the new last index is computed on Python integers, from
  \<open>self.num_samples - 1\<close>, and then stored in a cell. With rows present the new cell is
  built before the arrays are concatenated, so a number that does not fit is reported
  before a missing connectivity array is.
\<close>

definition append_chunk ::
  "(cell \<Rightarrow> nat) \<Rightarrow> chunk_name_encoder \<Rightarrow> int \<Rightarrow> bool \<Rightarrow> chunk_id
     \<Rightarrow> error + (string \<times> chunk_name_encoder)" where
  "append_chunk succ e n connected_to_next new_id =
     (if n < 0 then Inl ValueError
      else
        (case num_samples succ e of
           Inl err \<Rightarrow> Inl err
         | Inr ns \<Rightarrow>
             if ns = 0 then
               (if n = 0 then Inl (Exception ''First num samples cannot be 0.'')
                else
                  (case uint64_cell (nat (n - 1)) of
                     Inl err \<Rightarrow> Inl err
                   | Inr c \<Rightarrow>
                       Inr (chunk_name_from_id new_id,
                            \<lparr>encoded = Some [(new_id, c)],
                             connectivity = Some [connected_to_next]\<rparr>)))
             else
               (let last_index = ns - 1
                in case (encoded e, connectivity e) of
                  (Some es, Some cs) \<Rightarrow>
                    if n = 0 \<and> cs = [] then Inl IndexError
                    else if n = 0 \<and> \<not> last cs
                    then Inl (Exception
                           ''num_samples cannot be 0 unless the previous chunk was connected to next.'')
                    else
                      (case uint64_cell (last_index + nat n) of
                         Inl err \<Rightarrow> Inl err
                       | Inr c \<Rightarrow>
                           Inr (chunk_name_from_id new_id,
                                \<lparr>encoded = Some (es @ [(new_id, c)]),
                                 connectivity = Some (cs @ [connected_to_next])\<rparr>))
                | (Some es, None) \<Rightarrow>
                    if n = 0 then Inl TypeError
                    else (case uint64_cell (last_index + nat n) of
                            Inl err \<Rightarrow> Inl err
                          | Inr c \<Rightarrow> Inl ValueError)
                | _ \<Rightarrow> Inl TypeError)))"

text \<open>A history of calls on one encoder; it stops at the first call that raises.\<close>

datatype encoder_op = Append_chunk int bool chunk_id | Extend_chunk int bool

fun op_samples :: "encoder_op \<Rightarrow> int" where
  "op_samples (Append_chunk n c i) = n"
| "op_samples (Extend_chunk n c) = n"

fun apply_op ::
  "(cell \<Rightarrow> nat) \<Rightarrow> (cell \<Rightarrow> int \<Rightarrow> error + cell) \<Rightarrow> chunk_name_encoder \<Rightarrow> encoder_op
     \<Rightarrow> error + chunk_name_encoder" where
  "apply_op succ iadd e (Append_chunk n c i) = map_sum id snd (append_chunk succ e n c i)"
| "apply_op succ iadd e (Extend_chunk n c) = map_sum id snd (extend_chunk succ iadd e n c)"

fun run_ops ::
  "(cell \<Rightarrow> nat) \<Rightarrow> (cell \<Rightarrow> int \<Rightarrow> error + cell) \<Rightarrow> chunk_name_encoder \<Rightarrow> encoder_op list
     \<Rightarrow> error + chunk_name_encoder" where
  "run_ops succ iadd e [] = Inr e"
| "run_ops succ iadd e (x # xs) =
     (case apply_op succ iadd e x of Inl err \<Rightarrow> Inl err | Inr e' \<Rightarrow> run_ops succ iadd e' xs)"

text \<open>
  The invariant of the data model: the last indices do not decrease along the rows, and
  \<open>num_samples\<close> is one more than the last of them, or 0 when there is no row.
\<close>

definition last_indices :: "chunk_name_encoder \<Rightarrow> nat list" where
  "last_indices e = (case encoded e of None \<Rightarrow> [] | Some es \<Rightarrow> map last_index_of es)"

definition recorded_samples :: "chunk_name_encoder \<Rightarrow> nat" where
  "recorded_samples e = (if last_indices e = [] then 0 else last (last_indices e) + 1)"

definition encoder_invariant :: "(cell \<Rightarrow> nat) \<Rightarrow> chunk_name_encoder \<Rightarrow> bool" where
  "encoder_invariant succ e =
     (sorted (last_indices e)
      \<and> encoded e \<noteq> Some []
      \<and> num_samples succ e = Inr (recorded_samples e))"

text \<open>
  The sums are exact below \<open>B\<close> when they are the sums of the numbers for every result
  whose last index is less than \<open>B\<close>. For NumPy 1 that is \<open>B = 2 ^ 53\<close>, where double
  precision begins to round, and for NumPy 2 it is \<open>B = 2 ^ 64 - 1\<close>, where \<open>cell + 1\<close>
  wraps around.
\<close>

definition exact_below ::
  "nat \<Rightarrow> (cell \<Rightarrow> nat) \<Rightarrow> (cell \<Rightarrow> int \<Rightarrow> error + cell) \<Rightarrow> bool" where
  "exact_below B succ iadd =
     (B \<le> 2 ^ 64
      \<and> (\<forall>c. unat c < B \<longrightarrow> succ c = unat c + 1)
      \<and> (\<forall>c n. 0 < n \<and> int (unat c) + n < int B
                \<longrightarrow> iadd c n = Inr (word_of_int (int (unat c) + n))))"

text \<open>
  The two arrays of an encoder are set together and have one connectivity flag per row.
\<close>

definition rows_match :: "chunk_name_encoder \<Rightarrow> bool" where
  "rows_match e =
     (case encoded e of
        None \<Rightarrow> connectivity e = None
      | Some es \<Rightarrow> (case connectivity e of None \<Rightarrow> False | Some cs \<Rightarrow> length cs = length es))"






section \<open>Arrays, tensor meta and the storage of a tensor\<close>

text \<open>A NumPy array is its dtype name, its shape and its row-major buffer.\<close>

type_synonym byte = "8 word"

record ndarray =
  dtype :: string
  shape :: "nat list"
  buf :: "byte list"

text \<open>
  Modelled from the spec: the tensor meta (hub.core.meta.tensor\_meta) is missing from the
  sources; it holds the dtype, the length, the bounds of the sample shapes and the chunk
  size.
\<close>

record tensor_meta =
  meta_dtype :: string
  meta_length :: nat
  min_shape :: "nat list"
  max_shape :: "nat list"
  chunk_size :: nat

text \<open>
  Modelled from the spec: the class \<open>IndexMap\<close> is missing from the sources; it has one
  entry per sample, with the ordinals of its first and last chunk, the byte where it starts
  in the first and the byte where it ends in the last, and its shape.
\<close>

record index_entry =
  start_chunk :: nat
  end_chunk :: nat
  start_byte :: nat
  end_byte :: nat
  entry_shape :: "nat list"

text \<open>
  Modelled from the spec: \<open>read_tensor_meta\<close>, \<open>write_tensor_meta\<close> and the storage
  providers are missing from the sources. The storage is seen through what the tensor code
  keeps in it per tensor key: the tensor meta, the index map and the chunks by ordinal; the
  serialisation of these objects is not modelled.
\<close>

record storage =
  tensor_metas :: "string \<rightharpoonup> tensor_meta"
  index_maps :: "string \<Rightarrow> index_entry list"
  chunks :: "string \<Rightarrow> byte list list"

definition tensor_exists :: "string \<Rightarrow> storage \<Rightarrow> bool" where
  "tensor_exists key st = (tensor_metas st key \<noteq> None)"

text \<open>
  Modelled from the spec: \<open>write_tensor_meta\<close> is missing from the sources; it stores the
  meta under the meta key of the tensor.
\<close>

definition write_tensor_meta :: "string \<Rightarrow> storage \<Rightarrow> tensor_meta \<Rightarrow> storage" where
  "write_tensor_meta key st m = st\<lparr>tensor_metas := (tensor_metas st)(key \<mapsto> m)\<rparr>"

text \<open>
  \<open>create_tensor\<close> of hub/core/tensor.py. \<open>validate_tensor_meta\<close> is not part of the
  sources and is an argument: it returns the error it raises, if any.
\<close>

definition create_tensor ::
  "(tensor_meta \<Rightarrow> error option) \<Rightarrow> string \<Rightarrow> storage \<Rightarrow> tensor_meta \<Rightarrow> error option \<times> storage" where
  "create_tensor validate_tensor_meta key st meta =
     (if tensor_exists key st then (Some (TensorAlreadyExistsError key), st)
      else
        (let meta' = meta\<lparr>meta_length := 0\<rparr>
         in case validate_tensor_meta meta' of
              Some err \<Rightarrow> (Some err, st)
            | None \<Rightarrow> (None, write_tensor_meta key st meta')))"

definition check_array_and_tensor_are_compatible :: "tensor_meta \<Rightarrow> ndarray \<Rightarrow> error option" where
  "check_array_and_tensor_are_compatible m a =
     (if meta_dtype m \<noteq> dtype a
      then Some (TensorMetaMismatchError (Str ''dtype'') (Str (meta_dtype m)) (Str (dtype a)))
      else
        (let sample_shape = tl (shape a)
         in if length (min_shape m) \<noteq> length sample_shape
            then Some (TensorMetaMismatchError (Str ''min_shape'') (Shape (min_shape m))
                         (Num (length sample_shape)))
            else if length (max_shape m) \<noteq> length sample_shape
            then Some (TensorMetaMismatchError (Str ''max_shape'') (Shape (max_shape m))
                         (Num (length sample_shape)))
            else if max_shape m \<noteq> sample_shape
            then Some (NotImplementedError ''Dynamic shapes are not supported yet.'')
            else if min_shape m \<noteq> sample_shape
            then Some (NotImplementedError ''Dynamic shapes are not supported yet.'')
            else None))"

text \<open>
  Modelled from the spec: \<open>normalize_and_batchify_shape\<close> (hub.util.array) is missing from
  the sources; an array that is one sample gets a batch axis of 1 prepended.
\<close>

definition normalize_and_batchify_shape :: "ndarray \<Rightarrow> bool \<Rightarrow> ndarray" where
  "normalize_and_batchify_shape a batched = (if batched then a else a\<lparr>shape := 1 # shape a\<rparr>)"

text \<open>\<open>array[i]\<close> on a batched array: the \<open>i\<close>-th of the equal slices of the buffer.\<close>

definition sample_at :: "ndarray \<Rightarrow> nat \<Rightarrow> ndarray" where
  "sample_at a i =
     (let sz = length (buf a) div hd (shape a)
      in \<lparr>dtype = dtype a, shape = tl (shape a), buf = take sz (drop (i * sz) (buf a))\<rparr>)"

text \<open>
  Modelled from the spec: \<open>row_wise_to_bytes\<close> (hub.core.flatten) is missing from the
  sources; a sample is flattened row-wise to its bytes.
\<close>

definition row_wise_to_bytes :: "ndarray \<Rightarrow> byte list" where
  "row_wise_to_bytes a = buf a"

subsection \<open>The chunk engine\<close>

text \<open>
  Modelled from the spec: a buffer of \<open>l\<close> bytes is split into \<open>ceil(l / n)\<close> chunks of
  \<open>n\<close> bytes, of which the last may be partial.
\<close>

function split_chunks :: "nat \<Rightarrow> byte list \<Rightarrow> byte list list" where
  "split_chunks n xs = (if n = 0 \<or> xs = [] then [] else take n xs # split_chunks n (drop n xs))"
  by pat_completeness auto
termination
  by (relation "measure (\<lambda>(n, xs). length xs)") auto

declare split_chunks.simps [simp del]

text \<open>
  Modelled from the spec: \<open>write_bytes\<close> (hub.core.chunk\_engine.write) is missing from the
  sources. The last chunk is open when it exists and is not full. A buffer that fits into
  what remains of the open chunk is appended to it. Otherwise the open chunk is filled, the
  rest is split into new chunks of \<open>chunk_size\<close> bytes, and one entry spans from the open
  chunk to the last new one. Chunks are addressed by their ordinal, as the index map does.
  Where the spec is silent: without an open chunk the sample starts at byte 0 of the first
  new chunk, and for a sample of no bytes that chunk is an empty one.
\<close>

definition write_bytes :: "byte list \<Rightarrow> string \<Rightarrow> nat \<Rightarrow> storage \<Rightarrow> nat list \<Rightarrow> storage" where
  "write_bytes b key csize st shp =
     (let cs = chunks st key;
          has_last = (cs \<noteq> [] \<and> length (last cs) < csize);
          used = (if has_last then length (last cs) else 0);
          remaining = (if has_last then csize - used else 0);
          last_idx = length cs - 1
      in if has_last \<and> length b \<le> remaining then
           st\<lparr>chunks := (chunks st)(key := butlast cs @ [last cs @ b]),
              index_maps := (index_maps st)(key := index_maps st key @
                [\<lparr>start_chunk = last_idx, end_chunk = last_idx, start_byte = used,
                  end_byte = used + length b, entry_shape = shp\<rparr>])\<rparr>
         else if has_last then
           (let new = split_chunks csize (drop remaining b)
            in st\<lparr>chunks := (chunks st)(key := butlast cs @ [last cs @ take remaining b] @ new),
                  index_maps := (index_maps st)(key := index_maps st key @
                    [\<lparr>start_chunk = last_idx, end_chunk = last_idx + length new,
                      start_byte = used, end_byte = length (last new), entry_shape = shp\<rparr>])\<rparr>)
         else
           (let new = (if b = [] then [[]] else split_chunks csize b)
            in st\<lparr>chunks := (chunks st)(key := cs @ new),
                  index_maps := (index_maps st)(key := index_maps st key @
                    [\<lparr>start_chunk = length cs, end_chunk = length cs + length new - 1,
                      start_byte = 0, end_byte = length (last new), entry_shape = shp\<rparr>])\<rparr>))"

text \<open>
  Modelled from the spec: the provider's \<open>get\<close> on the key of a chunk fails with
  \<open>KeyNotFound\<close> when the chunk is absent.
\<close>

definition get_chunk :: "storage \<Rightarrow> string \<Rightarrow> nat \<Rightarrow> error + byte list" where
  "get_chunk st key i =
     (if i < length (chunks st key) then Inr (chunks st key ! i) else Inl KeyNotFound)"

text \<open>
  Modelled from the spec: the provider's \<open>get_bytes(key, offset, length)\<close> fails with
  \<open>OutOfRange\<close> when \<open>offset + length\<close> exceeds the length of the value.
\<close>

definition get_bytes :: "storage \<Rightarrow> string \<Rightarrow> nat \<Rightarrow> nat \<Rightarrow> nat \<Rightarrow> error + byte list" where
  "get_bytes st key i offset len =
     (case get_chunk st key i of
        Inl err \<Rightarrow> Inl err
      | Inr v \<Rightarrow> if length v < offset + len then Inl OutOfRange else Inr (take len (drop offset v)))"

text \<open>Modelled from the spec: the full bytes of each chunk of a run of ordinals.\<close>

fun get_chunks :: "storage \<Rightarrow> string \<Rightarrow> nat list \<Rightarrow> error + byte list list" where
  "get_chunks st key [] = Inr []"
| "get_chunks st key (i # is) =
     (case get_chunk st key i of
        Inl err \<Rightarrow> Inl err
      | Inr v \<Rightarrow> (case get_chunks st key is of Inl err \<Rightarrow> Inl err | Inr vs \<Rightarrow> Inr (v # vs)))"

text \<open>
  Modelled from the spec: \<open>sample_from_index_entry\<close> is missing from the sources. A sample
  in one chunk is a byte range of it; a sample over several chunks is the first chunk from
  \<open>start_byte\<close> on, every chunk between in full, and the last chunk up to \<open>end_byte\<close>. The
  bytes are read as an array of the tensor's dtype with the shape of the entry.
\<close>

definition sample_from_index_entry :: "string \<Rightarrow> storage \<Rightarrow> index_entry \<Rightarrow> string \<Rightarrow> error + ndarray" where
  "sample_from_index_entry key st e dt =
     (if start_chunk e = end_chunk e then
        (if end_byte e < start_byte e then Inl OutOfRange
         else
           (case get_bytes st key (start_chunk e) (start_byte e) (end_byte e - start_byte e) of
              Inl err \<Rightarrow> Inl err
            | Inr b \<Rightarrow> Inr \<lparr>dtype = dt, shape = entry_shape e, buf = b\<rparr>))
      else
        (case get_chunk st key (start_chunk e) of
           Inl err \<Rightarrow> Inl err
         | Inr first \<Rightarrow>
             (case get_chunks st key [start_chunk e + 1..<end_chunk e] of
                Inl err \<Rightarrow> Inl err
              | Inr middle \<Rightarrow>
                  (case get_chunk st key (end_chunk e) of
                     Inl err \<Rightarrow> Inl err
                   | Inr final \<Rightarrow>
                       Inr \<lparr>dtype = dt, shape = entry_shape e,
                            buf = drop (start_byte e) first @ concat middle
                                  @ take (end_byte e) final\<rparr>))))"

subsection \<open>Appending and reading (hub/core/tensor.py)\<close>

text \<open>
  \<open>add_samples_to_tensor\<close> returns nothing and changes the storage; the model returns the
  error raised, if any, with the storage as the call leaves it.
\<close>

definition add_samples_to_tensor :: "ndarray \<Rightarrow> string \<Rightarrow> storage \<Rightarrow> bool \<Rightarrow> error option \<times> storage" where
  "add_samples_to_tensor array0 key st batched =
     (let array = normalize_and_batchify_shape array0 batched
      in if \<not> tensor_exists key st then (Some (TensorDoesNotExistError key), st)
         else
           (case tensor_metas st key of
              None \<Rightarrow> (Some KeyError, st)
            | Some tensor_meta \<Rightarrow>
                (case check_array_and_tensor_are_compatible tensor_meta array of
                   Some err \<Rightarrow> (Some err, st)
                 | None \<Rightarrow>
                     (case shape array of
                        [] \<Rightarrow> (Some IndexError, st)
                      | array_length # _ \<Rightarrow>
                          (let st' = fold (\<lambda>i s.
                                       write_bytes (row_wise_to_bytes (sample_at array i)) key
                                         (chunk_size tensor_meta) s (shape (sample_at array i)))
                                     [0..<array_length] st
                           in (None, write_tensor_meta key st'
                                 (tensor_meta\<lparr>meta_length := meta_length tensor_meta + array_length\<rparr>)))))))"

text \<open>
  \<open>np.array(samples)\<close> on a list of arrays: arrays of one shape are stacked along a new
  first axis; no array at all gives the empty array of NumPy's default dtype; arrays of
  different shapes are refused.
\<close>

definition np_array :: "ndarray list \<Rightarrow> error + ndarray" where
  "np_array samples =
     (case samples of
        [] \<Rightarrow> Inr \<lparr>dtype = ''float64'', shape = [0], buf = []\<rparr>
      | a # _ \<Rightarrow>
          if list_all (\<lambda>x. shape x = shape a) samples
          then Inr \<lparr>dtype = dtype a, shape = length samples # shape a,
                    buf = concat (map buf samples)\<rparr>
          else Inl ValueError)"

fun read_entries :: "string \<Rightarrow> storage \<Rightarrow> string \<Rightarrow> index_entry list \<Rightarrow> error + ndarray list" where
  "read_entries key st dt [] = Inr []"
| "read_entries key st dt (e # es) =
     (case sample_from_index_entry key st e dt of
        Inl err \<Rightarrow> Inl err
      | Inr a \<Rightarrow> (case read_entries key st dt es of Inl err \<Rightarrow> Inl err | Inr as \<Rightarrow> Inr (a # as)))"

text \<open>
  \<open>read_samples_from_tensor\<close> at its default index \<open>Index()\<close>, the full read: the class
  \<open>Index\<close> is missing from the sources, and the default selects every entry of the index
  map and is not an integer item.
\<close>

definition read_samples_from_tensor :: "string \<Rightarrow> storage \<Rightarrow> error + ndarray" where
  "read_samples_from_tensor key st =
     (case tensor_metas st key of
        None \<Rightarrow> Inl KeyError
      | Some meta \<Rightarrow>
          (case read_entries key st (meta_dtype meta) (index_maps st key) of
             Inl err \<Rightarrow> Inl err
           | Inr samples \<Rightarrow> np_array samples))"

text \<open>\<open>np.stack\<close> of arrays of one dtype and shape, and a history of single appends.\<close>

definition stack :: "ndarray list \<Rightarrow> ndarray" where
  "stack as = \<lparr>dtype = dtype (hd as), shape = length as # shape (hd as),
               buf = concat (map buf as)\<rparr>"

fun append_all :: "ndarray list \<Rightarrow> string \<Rightarrow> storage \<Rightarrow> error option \<times> storage" where
  "append_all [] key st = (None, st)"
| "append_all (a # as) key st =
     (case add_samples_to_tensor a key st False of
        (Some err, st') \<Rightarrow> (Some err, st')
      | (None, st') \<Rightarrow> append_all as key st')"

subsection \<open>Invariants of the chunk store\<close>

text \<open>
  An entry is settled in a list of chunks when its chunks exist and its last byte lies
  inside its last chunk. A write only lengthens the last chunk and adds chunks after it.
\<close>

definition settled :: "byte list list \<Rightarrow> index_entry \<Rightarrow> bool" where
  "settled cs e =
     (end_chunk e < length cs \<and> start_chunk e \<le> end_chunk e
      \<and> end_byte e \<le> length (cs ! end_chunk e)
      \<and> (start_chunk e = end_chunk e \<longrightarrow> start_byte e \<le> end_byte e))"

definition grows_to :: "byte list list \<Rightarrow> byte list list \<Rightarrow> bool" where
  "grows_to cs cs' = (cs = [] \<or> (\<exists>t new. cs' = butlast cs @ [last cs @ t] @ new))"

text \<open>
  The state of a tensor after the samples \<open>as\<close> were appended: its meta counts them, every
  entry of the index map is settled, and the entries read back as the samples.
\<close>

definition holds_samples :: "string \<Rightarrow> tensor_meta \<Rightarrow> storage \<Rightarrow> ndarray list \<Rightarrow> bool" where
  "holds_samples key m st as =
     (tensor_metas st key = Some (m\<lparr>meta_length := length as\<rparr>)
      \<and> list_all (settled (chunks st key)) (index_maps st key)
      \<and> read_entries key st (meta_dtype m) (index_maps st key) = Inr as)"

section \<open>Tensor and Dataset lengths (hub/api)\<close>

text \<open>
  \<open>Tensor.__len__\<close> is the \<open>length\<close> of the tensor meta loaded from the storage; the
  loader \<open>TensorMeta.load\<close> is missing from the sources and reads the meta stored under the
  key. A \<open>Tensor\<close> borrows the storage of its \<open>Dataset\<close> and is represented by its key;
  the dictionary \<open>Dataset.tensors\<close> maps each name to the tensor of that key.
\<close>

definition Tensor_len :: "string \<Rightarrow> storage \<Rightarrow> error + nat" where
  "Tensor_len key st =
     (case tensor_metas st key of None \<Rightarrow> Inl KeyError | Some m \<Rightarrow> Inr (meta_length m))"

record dataset =
  ds_storage :: storage
  tensors :: "string list"

fun tensor_lengths :: "storage \<Rightarrow> string list \<Rightarrow> error + nat list" where
  "tensor_lengths st [] = Inr []"
| "tensor_lengths st (k # ks) =
     (case Tensor_len k st of
        Inl err \<Rightarrow> Inl err
      | Inr n \<Rightarrow> (case tensor_lengths st ks of Inl err \<Rightarrow> Inl err | Inr ns \<Rightarrow> Inr (n # ns)))"

text \<open>Python's \<open>min(iterable, default=d)\<close> on numbers.\<close>

definition min_default :: "nat list \<Rightarrow> nat \<Rightarrow> nat" where
  "min_default xs d = (case xs of [] \<Rightarrow> d | x # rest \<Rightarrow> fold min rest x)"

definition Dataset_len :: "dataset \<Rightarrow> error + nat" where
  "Dataset_len ds =
     (case tensor_lengths (ds_storage ds) (tensors ds) of
        Inl err \<Rightarrow> Inl err
      | Inr ns \<Rightarrow> Inr (min_default ns 0))"

section \<open>The cache layer\<close>

text \<open>
  Modelled from the spec: the class of the LRU cache is missing from the sources (only its
  test \<open>check_cache\<close> is there). A cache layer holds a bounded \<open>cache_storage\<close> in front of
  the authoritative \<open>next_storage\<close>, both maps from keys to bytes; \<open>lru_sizes\<close> lists the
  cached keys with the sizes of their values, oldest first; \<open>dirty_keys\<close> are the keys
  whose cached value is not yet in \<open>next_storage\<close>.
\<close>

record cache_layer =
  cache_storage :: "string \<rightharpoonup> byte list"
  next_storage :: "string \<rightharpoonup> byte list"
  max_cache_size :: nat
  lru_sizes :: "(string \<times> nat) list"
  dirty_keys :: "string set"
  cache_used :: nat

text \<open>Modelled from the spec: \<open>get\<close> of a provider fails with \<open>KeyNotFound\<close> on an absent key.\<close>

definition provider_get :: "(string \<rightharpoonup> byte list) \<Rightarrow> string \<Rightarrow> error + byte list" where
  "provider_get s k = (case s k of None \<Rightarrow> Inl KeyNotFound | Some v \<Rightarrow> Inr v)"

text \<open>
  Modelled from the spec: one round of the eviction loop. The oldest key is written to
  \<open>next_storage\<close> if it is dirty, and leaves the cache with its recorded size.
\<close>

definition evict_oldest :: "cache_layer \<Rightarrow> error + cache_layer" where
  "evict_oldest c =
     (case lru_sizes c of
        [] \<Rightarrow> Inr c
      | (k, sz) # rest \<Rightarrow>
          if k \<in> dirty_keys c then
            (case provider_get (cache_storage c) k of
               Inl err \<Rightarrow> Inl err
             | Inr v \<Rightarrow>
                 Inr (c\<lparr>next_storage := (next_storage c)(k \<mapsto> v),
                        dirty_keys := dirty_keys c - {k},
                        cache_storage := (cache_storage c)(k := None),
                        lru_sizes := rest,
                        cache_used := cache_used c - sz\<rparr>))
          else
            Inr (c\<lparr>cache_storage := (cache_storage c)(k := None),
                   lru_sizes := rest,
                   cache_used := cache_used c - sz\<rparr>))"

text \<open>
  Modelled from the spec: \<open>_ensure_capacity(need)\<close> evicts the oldest key while the used
  bytes plus \<open>need\<close> exceed the budget and a key is cached.
\<close>

function ensure_capacity :: "cache_layer \<Rightarrow> nat \<Rightarrow> error + cache_layer" where
  "ensure_capacity c need =
     (if max_cache_size c < cache_used c + need \<and> lru_sizes c \<noteq> []
      then (case evict_oldest c of Inl err \<Rightarrow> Inl err | Inr c' \<Rightarrow> ensure_capacity c' need)
      else Inr c)"
  by pat_completeness auto
termination
  by (relation "measure (\<lambda>(c, need). length (lru_sizes c))")
     (auto simp: evict_oldest_def split: list.splits if_splits sum.splits)

declare ensure_capacity.simps [simp del]


text \<open>
  Modelled from the spec: \<open>set\<close> drops the size of a key that is cached already, makes
  room for the value, and caches it as the most recent key, dirty.
\<close>

definition cache_set :: "cache_layer \<Rightarrow> string \<Rightarrow> byte list \<Rightarrow> error + cache_layer" where
  "cache_set c key v =
     (let c1 = (case map_of (lru_sizes c) key of
                  Some sz \<Rightarrow> c\<lparr>cache_used := cache_used c - sz,
                               lru_sizes := filter (\<lambda>p. fst p \<noteq> key) (lru_sizes c)\<rparr>
                | None \<Rightarrow> c)
      in case ensure_capacity c1 (length v) of
           Inl err \<Rightarrow> Inl err
         | Inr c2 \<Rightarrow>
             Inr (c2\<lparr>cache_storage := (cache_storage c2)(key \<mapsto> v),
                     lru_sizes := lru_sizes c2 @ [(key, length v)],
                     dirty_keys := insert key (dirty_keys c2),
                     cache_used := cache_used c2 + length v\<rparr>))"







section \<open>Rendering and parsing chunk names\<close>

lemma hex_digit_table:
  "list_all (\<lambda>d. is_lower_hex (hex_digit d) \<and> digit_value (hex_digit d) = Some d) [0..<16]"
  by code_simp

lemma hex_digit_lower: "d < 16 \<Longrightarrow> is_lower_hex (hex_digit d)"
  using hex_digit_table by (simp add: list_all_iff)

lemma hex_digit_value: "d < 16 \<Longrightarrow> digit_value (hex_digit d) = Some d"
  using hex_digit_table by (simp add: list_all_iff)

lemma lower_hex_body: "is_lower_hex c \<Longrightarrow> is_body_char c \<and> c \<noteq> CHR ''_''"
  by (auto simp: is_lower_hex_def is_body_char_def digit_value_def)

lemma hex_digits_lower: "list_all is_lower_hex (hex_digits n)"
proof (induction n rule: hex_digits.induct)
  case (1 n)
  show ?case
  proof (cases "n = 0")
    case True
    then show ?thesis by (simp add: hex_digits.simps)
  next
    case False
    with 1 have "list_all is_lower_hex (hex_digits (n div 16))" by simp
    moreover have "is_lower_hex (hex_digit (n mod 16))"
      by (rule hex_digit_lower) simp
    ultimately show ?thesis
      using False by (subst hex_digits.simps) simp
  qed
qed

lemma hex_digits_nonempty: "0 < n \<Longrightarrow> hex_digits n \<noteq> []"
  by (subst hex_digits.simps) simp

lemma digits_value_snoc:
  "digits_value (ds @ [c]) = digits_value ds * 16 + the (digit_value c)"
  by (simp add: digits_value_def)

lemma digits_value_hex_digits: "digits_value (hex_digits n) = n"
proof (induction n rule: hex_digits.induct)
  case (1 n)
  show ?case
  proof (cases "n = 0")
    case True
    then show ?thesis by (simp add: hex_digits.simps digits_value_def)
  next
    case False
    with 1 have ih: "digits_value (hex_digits (n div 16)) = n div 16" by simp
    have "digits_value (hex_digits n)
            = digits_value (hex_digits (n div 16)) * 16 + the (digit_value (hex_digit (n mod 16)))"
      using False by (subst hex_digits.simps) (simp add: digits_value_snoc)
    also have "\<dots> = (n div 16) * 16 + n mod 16"
      by (simp add: ih hex_digit_value)
    finally show ?thesis by simp
  qed
qed

lemma no_double_underscore_lower:
  "list_all is_lower_hex ds \<Longrightarrow> no_double_underscore ds"
  by (induction ds rule: no_double_underscore.induct) (auto dest: lower_hex_body)

lemma int16_after_prefix_lower:
  assumes low: "list_all is_lower_hex ds" and ne: "ds \<noteq> []"
  shows "int16_after_prefix ds = Inr (int (digits_value ds))"
proof -
  have all_body: "\<forall>c \<in> set ds. is_body_char c"
    using low by (auto simp: list_all_iff dest: lower_hex_body)
  have no_us: "\<forall>c \<in> set ds. c \<noteq> CHR ''_''"
    using low by (auto simp: list_all_iff dest: lower_hex_body)
  obtain c cs where ds: "ds = c # cs" using ne by (cases ds) auto
  have c: "c \<noteq> CHR ''_''" using no_us ds by simp
  have tw: "takeWhile is_body_char ds = ds" using all_body by simp
  have dw: "dropWhile is_body_char ds = []" using all_body by simp
  have hd: "hd ds \<noteq> CHR ''_''" using ds c by simp
  have la: "last ds \<noteq> CHR ''_''" using no_us ne last_in_set by blast
  have fl: "filter (\<lambda>c. c \<noteq> CHR ''_'') ds = ds" using no_us by simp
  have s: "(case ds of c # cs \<Rightarrow> (if c = CHR ''_'' then cs else ds) | [] \<Rightarrow> ds) = ds"
    using ds c by simp
  show ?thesis
    unfolding int16_after_prefix_def s Let_def tw dw fl
    using ne hd la no_double_underscore_lower [OF low] by simp
qed

lemma chunk_name_cases:
  "chunk_name_from_id i = (if unat i = 0 then ''0'' else hex_digits (unat i))"
  by (simp add: chunk_name_from_id_def hex_def)

text \<open>
  C9. The name rendered for a 64-bit chunk id is a non-empty string of the characters
  \<open>0-9a-f\<close> only (lower-case hexadecimal, hence without the \<open>0x\<close> prefix), and parsing
  it gives back the value of the id.
\<close>

theorem chunk_name_roundtrip:
  "chunk_name_from_id i \<noteq> []
   \<and> list_all is_lower_hex (chunk_name_from_id i)
   \<and> chunk_id_from_name (chunk_name_from_id i) = Inr (uint i)
   \<and> (\<exists>n. chunk_id_from_name (chunk_name_from_id i) = Inr n \<and> word_of_int n = i)"
proof -
  let ?name = "chunk_name_from_id i"
  have ne: "?name \<noteq> []"
    by (simp add: chunk_name_cases hex_digits_nonempty)
  have low: "list_all is_lower_hex ?name"
    by (simp add: chunk_name_cases hex_digits_lower is_lower_hex_def)
  have zero: "digits_value ''0'' = 0"
    by (simp add: digits_value_def digit_value_def)
  have val: "digits_value ?name = unat i"
    using zero by (simp add: chunk_name_cases digits_value_hex_digits)
  have rt: "chunk_id_from_name ?name = Inr (uint i)"
    unfolding chunk_id_from_name_def int16_after_prefix_lower [OF low ne] val
    by simp
  show ?thesis using ne low rt by simp
qed

section \<open>Properties of the chunk-name encoder\<close>

lemma sorted_le_last: "sorted xs \<Longrightarrow> x \<in> set xs \<Longrightarrow> x \<le> (last xs :: nat)"
  by (induction xs) (auto split: if_splits)

lemma sorted_snoc_last:
  "sorted xs \<Longrightarrow> xs \<noteq> [] \<Longrightarrow> last xs \<le> y \<Longrightarrow> sorted (xs @ [y :: nat])"
  by (auto simp: sorted_append dest: sorted_le_last)

lemma sorted_butlast_snoc:
  assumes "sorted xs" and "xs \<noteq> []" and "last xs \<le> (y :: nat)"
  shows "sorted (butlast xs @ [y])"
proof -
  have "sorted (butlast xs)" using assms(1) by (rule sorted_butlast)
  moreover have "\<forall>x \<in> set (butlast xs). x \<le> y"
    using assms by (meson in_set_butlastD le_trans sorted_le_last)
  ultimately show ?thesis by (simp add: sorted_append)
qed

subsection \<open>The arithmetic of the two NumPy lines\<close>

lemma unat_cell: "v < 2 ^ 64 \<Longrightarrow> unat (of_nat v :: cell) = v"
  by (simp add: unat_of_nat)

lemma uint64_cell_Inr: "uint64_cell v = Inr c \<Longrightarrow> v < 2 ^ 64 \<and> unat c = v"
  by (auto simp: uint64_cell_def unat_cell split: if_splits)

lemma numpy2_exact: "exact_below (2 ^ 64 - 1) numpy2_succ numpy2_iadd"
proof -
  have s: "numpy2_succ c = unat c + 1" if "unat c < 2 ^ 64 - 1" for c
  proof -
    have "unat c + unat (1 :: cell) < 2 ^ LENGTH(64)" using that by simp
    then have "unat (c + 1) = unat c + unat (1 :: cell)" by (simp only: unat_add_lem)
    then show ?thesis by (simp add: numpy2_succ_def)
  qed
  have a: "numpy2_iadd c n = Inr (word_of_int (int (unat c) + n))"
    if "0 < n" and "int (unat c) + n < int (2 ^ 64 - 1)" for c n
  proof -
    have b: "int (2 ^ 64 - 1) = 18446744073709551615" by simp
    have "n < 18446744073709551616"
      using that(2) of_nat_0_le_iff [of "unat c"] unfolding b by linarith
    moreover have "word_of_int (int (unat c) + n) = c + (word_of_int n :: cell)"
      by simp
    ultimately show ?thesis using that by (simp add: numpy2_iadd_def)
  qed
  show ?thesis unfolding exact_below_def using s a by auto
qed


text \<open>Past \<open>2 ^ 53\<close> only every second number is a double.\<close>

lemma round_double_odd:
  "round_double 9007199254740993 = 9007199254740992"
  "round_double 9007199254740995 = 9007199254740996"
  by (simp_all add: round_double_def bit_length.simps Let_def)

lemma round_double_even: "round_double 9007199254740994 = 9007199254740994"
  by (simp add: round_double_def bit_length.simps Let_def)

lemma numpy1_succ_rounds:
  "numpy1_succ 9007199254740993 = 9007199254740992"
  "numpy1_succ 9007199254740994 = 9007199254740996"
  by (simp_all add: numpy1_succ_def round_double_odd round_double_even)

subsection \<open>The invariant along a history\<close>

lemma recorded_samples_Some:
  "encoded e = Some es \<Longrightarrow> es \<noteq> [] \<Longrightarrow> recorded_samples e = last_index_of (last es) + 1"
  by (simp add: recorded_samples_def last_indices_def last_map)

lemma append_chunk_step:
  assumes ex: "exact_below B succ iadd" and inv: "encoder_invariant succ e"
    and ok: "append_chunk succ e n c i = Inr (name, e')"
    and bound: "int (recorded_samples e) + n \<le> int B"
  shows "encoder_invariant succ e' \<and> int (recorded_samples e') = int (recorded_samples e) + n"
proof (cases "encoded e")
  case None
  then have ns: "num_samples succ e = Inr 0" by (simp add: num_samples_def)
  have r0: "recorded_samples e = 0"
    using None by (simp add: recorded_samples_def last_indices_def)
  from ok ns obtain cell where n: "0 < n" and st: "uint64_cell (nat (n - 1)) = Inr cell"
    and e': "e' = \<lparr>encoded = Some [(i, cell)], connectivity = Some [c]\<rparr>"
    by (auto simp: append_chunk_def split: if_splits sum.splits)
  have u: "unat cell = nat (n - 1)" using uint64_cell_Inr [OF st] by simp
  have "unat cell < B" using u n bound r0 by simp
  then have sc: "succ cell = unat cell + 1" using ex by (simp add: exact_below_def)
  show ?thesis
    using n u sc r0
    by (simp add: e' encoder_invariant_def last_indices_def recorded_samples_def num_samples_def
          last_index_of_def)
next
  case (Some es)
  with inv have es: "es \<noteq> []" and so: "sorted (map last_index_of es)"
    by (auto simp: encoder_invariant_def last_indices_def)
  let ?L = "last_index_of (last es)"
  have rec: "recorded_samples e = ?L + 1" using Some es by (rule recorded_samples_Some)
  have ns: "num_samples succ e = Inr (?L + 1)"
    using inv rec by (simp add: encoder_invariant_def)
  from ok Some ns obtain cs cell where n: "0 \<le> n"
    and st: "uint64_cell (?L + nat n) = Inr cell"
    and e': "e' = \<lparr>encoded = Some (es @ [(i, cell)]), connectivity = Some (cs @ [c])\<rparr>"
    by (auto simp: append_chunk_def Let_def split: if_splits option.splits sum.splits)
  have u: "unat cell = ?L + nat n" using uint64_cell_Inr [OF st] by simp
  have "unat cell < B" using u n bound rec by simp
  then have sc: "succ cell = unat cell + 1" using ex by (simp add: exact_below_def)
  have "sorted (map last_index_of es @ [?L + nat n])"
    using so es by (intro sorted_snoc_last) (simp_all add: last_map)
  then show ?thesis
    using n u sc rec
    by (simp add: e' encoder_invariant_def last_indices_def recorded_samples_def num_samples_def
          last_index_of_def)
qed

lemma extend_chunk_step:
  assumes ex: "exact_below B succ iadd" and inv: "encoder_invariant succ e"
    and ok: "extend_chunk succ iadd e n c = Inr (name, e')"
    and bound: "int (recorded_samples e) + n \<le> int B"
  shows "encoder_invariant succ e' \<and> int (recorded_samples e') = int (recorded_samples e) + n"
proof (cases "encoded e")
  case None
  with ok show ?thesis
    by (auto simp: extend_chunk_def num_samples_def split: if_splits)
next
  case (Some es)
  with inv have es: "es \<noteq> []" and so: "sorted (map last_index_of es)"
    by (auto simp: encoder_invariant_def last_indices_def)
  let ?L = "last_index_of (last es)"
  have rec: "recorded_samples e = ?L + 1" using Some es by (rule recorded_samples_Some)
  have ns: "num_samples succ e = Inr (?L + 1)"
    using inv rec by (simp add: encoder_invariant_def)
  from ok Some ns obtain cs cell where n: "0 < n"
    and st: "iadd (snd (last es)) n = Inr cell"
    and e': "e' = \<lparr>encoded = Some (butlast es @ [(fst (last es), cell)]),
               connectivity = Some (butlast cs @ [c])\<rparr>"
    by (auto simp: extend_chunk_def Let_def split: if_splits option.splits sum.splits)
  have B: "B \<le> 2 ^ 64" using ex by (simp add: exact_below_def)
  have lt: "int (unat (snd (last es))) + n < int B"
    using bound rec by (simp add: last_index_of_def)
  then have "iadd (snd (last es)) n = Inr (word_of_int (int (unat (snd (last es))) + n))"
    using ex n by (simp add: exact_below_def)
  moreover have "int (unat (snd (last es))) + n = int (?L + nat n)"
    using n by (simp add: last_index_of_def)
  ultimately have cell: "cell = of_nat (?L + nat n)"
    using st by (simp only: of_int_of_nat_eq sum.inject)
  have "int (?L + nat n) < int B" using lt n by (simp add: last_index_of_def)
  then have "?L + nat n < B" by (simp only: of_nat_less_iff)
  then have "?L + nat n < 2 ^ 64" using B by simp
  then have u: "unat cell = ?L + nat n" unfolding cell by (rule unat_cell)
  have "unat cell < B" using u \<open>?L + nat n < B\<close> by simp
  then have sc: "succ cell = unat cell + 1" using ex by (simp add: exact_below_def)
  have "sorted (butlast (map last_index_of es) @ [?L + nat n])"
    using so es by (intro sorted_butlast_snoc) (simp_all add: last_map)
  then show ?thesis
    using n u sc rec
    by (simp add: e' encoder_invariant_def last_indices_def recorded_samples_def num_samples_def
          last_index_of_def map_butlast)
qed

lemma append_chunk_rows_match:
  "rows_match e \<Longrightarrow> append_chunk succ e n c i = Inr (name, e') \<Longrightarrow> rows_match e'"
  by (auto simp: append_chunk_def rows_match_def num_samples_def Let_def
           split: if_splits option.splits sum.splits)

lemma extend_chunk_rows_match:
  "rows_match e \<Longrightarrow> extend_chunk succ iadd e n c = Inr (name, e') \<Longrightarrow> rows_match e'"
  by (auto simp: extend_chunk_def rows_match_def num_samples_def Let_def
           split: if_splits option.splits sum.splits)

lemma apply_op_nonneg: "apply_op succ iadd e x = Inr e' \<Longrightarrow> 0 \<le> op_samples x"
  by (cases x) (auto simp: append_chunk_def extend_chunk_def split: if_splits)

lemma run_ops_nonneg:
  "run_ops succ iadd e ops = Inr e' \<Longrightarrow> 0 \<le> sum_list (map op_samples ops)"
proof (induction ops arbitrary: e)
  case Nil
  then show ?case by simp
next
  case (Cons x xs)
  from Cons.prems obtain e1 where
    step: "apply_op succ iadd e x = Inr e1" and rest: "run_ops succ iadd e1 xs = Inr e'"
    by (auto split: sum.splits)
  show ?case using apply_op_nonneg [OF step] Cons.IH [OF rest] by simp
qed

lemma apply_op_step:
  assumes ex: "exact_below B succ iadd" and inv: "encoder_invariant succ e"
    and ok: "apply_op succ iadd e x = Inr e'"
    and bound: "int (recorded_samples e) + op_samples x \<le> int B"
  shows "encoder_invariant succ e'
         \<and> int (recorded_samples e') = int (recorded_samples e) + op_samples x"
proof (cases x)
  case (Append_chunk n c i)
  with ok obtain name where "append_chunk succ e n c i = Inr (name, e')"
    by (cases "append_chunk succ e n c i") auto
  then show ?thesis
    using append_chunk_step [OF ex inv] bound Append_chunk by simp
next
  case (Extend_chunk n c)
  with ok obtain name where "extend_chunk succ iadd e n c = Inr (name, e')"
    by (cases "extend_chunk succ iadd e n c") auto
  then show ?thesis
    using extend_chunk_step [OF ex inv] bound Extend_chunk by simp
qed

lemma apply_op_rows_match:
  assumes "rows_match e" and "apply_op succ iadd e x = Inr e'"
  shows "rows_match e'"
proof (cases x)
  case (Append_chunk n c i)
  with assms(2) obtain name where "append_chunk succ e n c i = Inr (name, e')"
    by (cases "append_chunk succ e n c i") auto
  with assms(1) show ?thesis by (rule append_chunk_rows_match)
next
  case (Extend_chunk n c)
  with assms(2) obtain name where "extend_chunk succ iadd e n c = Inr (name, e')"
    by (cases "extend_chunk succ iadd e n c") auto
  with assms(1) show ?thesis by (rule extend_chunk_rows_match)
qed

lemma run_ops_steps:
  assumes ex: "exact_below B succ iadd"
  shows "encoder_invariant succ e \<Longrightarrow> run_ops succ iadd e ops = Inr e'
     \<Longrightarrow> int (recorded_samples e) + sum_list (map op_samples ops) \<le> int B
     \<Longrightarrow> encoder_invariant succ e'
         \<and> int (recorded_samples e') = int (recorded_samples e) + sum_list (map op_samples ops)"
proof (induction ops arbitrary: e)
  case Nil
  then show ?case by simp
next
  case (Cons x xs)
  from Cons.prems(2) obtain e1 where
    step: "apply_op succ iadd e x = Inr e1" and rest: "run_ops succ iadd e1 xs = Inr e'"
    by (auto split: sum.splits)
  have "0 \<le> sum_list (map op_samples xs)" using rest by (rule run_ops_nonneg)
  then have b1: "int (recorded_samples e) + op_samples x \<le> int B"
    using Cons.prems(3) by simp
  note s1 = apply_op_step [OF ex Cons.prems(1) step b1]
  have b2: "int (recorded_samples e1) + sum_list (map op_samples xs) \<le> int B"
    using s1 Cons.prems(3) by simp
  show ?case using Cons.IH [OF conjunct1 [OF s1] rest b2] s1 by simp
qed

lemma run_ops_rows_match:
  "rows_match e \<Longrightarrow> run_ops succ iadd e ops = Inr e' \<Longrightarrow> rows_match e'"
proof (induction ops arbitrary: e)
  case Nil
  then show ?case by simp
next
  case (Cons x xs)
  from Cons.prems(2) obtain e1 where
    step: "apply_op succ iadd e x = Inr e1" and rest: "run_ops succ iadd e1 xs = Inr e'"
    by (auto split: sum.splits)
  have "rows_match e1" using Cons.prems(1) step by (rule apply_op_rows_match)
  then show ?case using rest by (rule Cons.IH)
qed

lemma init_encoder_invariant: "encoder_invariant succ init_encoder"
  by (simp add: encoder_invariant_def init_encoder_def last_indices_def num_samples_def
        recorded_samples_def)

text \<open>
  C8, as stated, fails where the cell arithmetic stops being exact. Under NumPy 2 the
  first \<open>append_chunk(2 ** 64)\<close> stores the last index \<open>2 ^ 64 - 1\<close>, and \<open>num_samples\<close>
  wraps around to 0; an \<open>extend_chunk\<close> whose sum passes \<open>2 ^ 64\<close> leaves a last index
  below the one of the row before. Under NumPy 1, after \<open>append_chunk(2 ** 53 + 2)\<close> the
  \<open>num_samples\<close> read by the next \<open>append_chunk(1)\<close> is rounded down to \<open>2 ^ 53\<close>, and the
  new row gets the last index \<open>2 ^ 53\<close>, below the \<open>2 ^ 53 + 1\<close> of the row before.
\<close>

theorem encoder_invariant_counterexample:
  "encoder_invariant numpy2_succ init_encoder
   \<and> run_ops numpy2_succ numpy2_iadd init_encoder [Append_chunk (2 ^ 64) False 10]
       = Inr \<lparr>encoded = Some [(10, 18446744073709551615)], connectivity = Some [False]\<rparr>
   \<and> num_samples numpy2_succ
       \<lparr>encoded = Some [(10, 18446744073709551615)], connectivity = Some [False]\<rparr> = Inr 0
   \<and> \<not> encoder_invariant numpy2_succ
       \<lparr>encoded = Some [(10, 18446744073709551615)], connectivity = Some [False]\<rparr>
   \<and> run_ops numpy2_succ numpy2_iadd init_encoder
       [Append_chunk 6 False 10, Append_chunk 5 False 11, Extend_chunk (2 ^ 64 - 8) False]
       = Inr \<lparr>encoded = Some [(10, 5), (11, 2)], connectivity = Some [False, False]\<rparr>
   \<and> \<not> encoder_invariant numpy2_succ
       \<lparr>encoded = Some [(10, 5), (11, 2)], connectivity = Some [False, False]\<rparr>
   \<and> encoder_invariant numpy1_succ init_encoder
   \<and> append_chunk numpy1_succ init_encoder (2 ^ 53 + 2) False 10
       = Inr (''a'', \<lparr>encoded = Some [(10, 9007199254740993)], connectivity = Some [False]\<rparr>)
   \<and> append_chunk numpy1_succ
       \<lparr>encoded = Some [(10, 9007199254740993)], connectivity = Some [False]\<rparr> 1 False 11
       = Inr (''b'', \<lparr>encoded = Some [(10, 9007199254740993), (11, 9007199254740992)],
                     connectivity = Some [False, False]\<rparr>)
   \<and> \<not> encoder_invariant numpy1_succ
       \<lparr>encoded = Some [(10, 9007199254740993), (11, 9007199254740992)],
        connectivity = Some [False, False]\<rparr>"
proof -
  have a: "chunk_name_from_id 10 = ''a''" by code_simp
  have b: "chunk_name_from_id 11 = ''b''" by code_simp
  have w: "numpy2_succ 18446744073709551615 = 0" by (simp add: numpy2_succ_def)
  have s5: "numpy2_succ 5 = 6" by (simp add: numpy2_succ_def)
  have s10: "numpy2_succ 10 = 11" by (simp add: numpy2_succ_def)
  note r = numpy1_succ_rounds(1)
  have i: "numpy2_iadd 10 18446744073709551608 = Inr 2" by (simp add: numpy2_iadd_def)
  have run1: "run_ops numpy2_succ numpy2_iadd init_encoder [Append_chunk (2 ^ 64) False 10]
       = Inr \<lparr>encoded = Some [(10, 18446744073709551615)], connectivity = Some [False]\<rparr>"
    by (simp add: init_encoder_def append_chunk_def num_samples_def uint64_cell_def)
  have run2: "run_ops numpy2_succ numpy2_iadd init_encoder
       [Append_chunk 6 False 10, Append_chunk 5 False 11, Extend_chunk (2 ^ 64 - 8) False]
       = Inr \<lparr>encoded = Some [(10, 5), (11, 2)], connectivity = Some [False, False]\<rparr>"
    by (simp add: init_encoder_def append_chunk_def extend_chunk_def num_samples_def
          uint64_cell_def s5 s10 i)
  have ap1: "append_chunk numpy1_succ init_encoder (2 ^ 53 + 2) False 10
       = Inr (''a'', \<lparr>encoded = Some [(10, 9007199254740993)], connectivity = Some [False]\<rparr>)"
    by (simp add: init_encoder_def append_chunk_def num_samples_def uint64_cell_def a)
  have ap2: "append_chunk numpy1_succ
       \<lparr>encoded = Some [(10, 9007199254740993)], connectivity = Some [False]\<rparr> 1 False 11
       = Inr (''b'', \<lparr>encoded = Some [(10, 9007199254740993), (11, 9007199254740992)],
                     connectivity = Some [False, False]\<rparr>)"
    by (simp add: append_chunk_def num_samples_def r uint64_cell_def b)
  have n1: "\<not> encoder_invariant numpy2_succ
       \<lparr>encoded = Some [(10, 18446744073709551615)], connectivity = Some [False]\<rparr>"
    by (simp add: encoder_invariant_def num_samples_def w recorded_samples_def last_indices_def)
  have n2: "\<not> encoder_invariant numpy2_succ
       \<lparr>encoded = Some [(10, 5), (11, 2)], connectivity = Some [False, False]\<rparr>"
    by (simp add: encoder_invariant_def last_indices_def last_index_of_def)
  have n3: "\<not> encoder_invariant numpy1_succ
       \<lparr>encoded = Some [(10, 9007199254740993), (11, 9007199254740992)],
        connectivity = Some [False, False]\<rparr>"
    by (simp add: encoder_invariant_def last_indices_def last_index_of_def)
  have ns0: "num_samples numpy2_succ
       \<lparr>encoded = Some [(10, 18446744073709551615)], connectivity = Some [False]\<rparr> = Inr 0"
    by (simp add: num_samples_def w)
  show ?thesis
    using run1 run2 ap1 ap2 n1 n2 n3 ns0 init_encoder_invariant by simp
qed

text \<open>
  C8, amended. Let the sums on a cell be exact below \<open>B\<close> (\<open>2 ^ 53\<close> under NumPy 1,
  \<open>2 ^ 64 - 1\<close> under NumPy 2). Every history of successful \<open>append_chunk\<close> and
  \<open>extend_chunk\<close> calls that records no more than \<open>B\<close> samples in all keeps the
  invariant: the last indices of the rows do not decrease, and \<open>num_samples\<close> is the last
  index of the last row plus one, or 0 for the encoder without rows (which the fresh
  encoder is). The number of samples recorded grows by the sum of the calls' arguments.
\<close>

theorem encoder_invariant_preserved:
  assumes "exact_below B succ iadd"
    and "encoder_invariant succ e"
    and "run_ops succ iadd e ops = Inr e'"
    and "int (recorded_samples e) + sum_list (map op_samples ops) \<le> int B"
  shows "encoder_invariant succ e'
         \<and> int (recorded_samples e') = int (recorded_samples e) + sum_list (map op_samples ops)"
  using assms by (rule run_ops_steps)

theorem encoder_invariant_preserved_witness:
  "exact_below (2 ^ 64 - 1) numpy2_succ numpy2_iadd
   \<and> encoder_invariant numpy2_succ init_encoder
   \<and> run_ops numpy2_succ numpy2_iadd init_encoder
        [Append_chunk 3 True 10, Append_chunk 0 False 11, Extend_chunk 2 False,
         Append_chunk 4 False 12]
      = Inr \<lparr>encoded = Some [(10, 2), (11, 4), (12, 8)],
             connectivity = Some [True, False, False]\<rparr>
   \<and> encoder_invariant numpy2_succ \<lparr>encoded = Some [(10, 2), (11, 4), (12, 8)],
             connectivity = Some [True, False, False]\<rparr>
   \<and> recorded_samples \<lparr>encoded = Some [(10, 2), (11, 4), (12, 8)],
             connectivity = Some [True, False, False]\<rparr> = 9"
proof -
  have s: "numpy2_succ 2 = 3" "numpy2_succ 4 = 5" by (simp_all add: numpy2_succ_def)
  have i: "numpy2_iadd 2 2 = Inr 4" by (simp add: numpy2_iadd_def)
  have run: "run_ops numpy2_succ numpy2_iadd init_encoder
        [Append_chunk 3 True 10, Append_chunk 0 False 11, Extend_chunk 2 False,
         Append_chunk 4 False 12]
      = Inr \<lparr>encoded = Some [(10, 2), (11, 4), (12, 8)],
             connectivity = Some [True, False, False]\<rparr>"
    by (simp add: init_encoder_def append_chunk_def extend_chunk_def num_samples_def
          uint64_cell_def s i)
  have r0: "recorded_samples init_encoder = 0"
    by (simp add: recorded_samples_def last_indices_def init_encoder_def)
  have bound: "int (recorded_samples init_encoder)
      + sum_list (map op_samples [Append_chunk 3 True 10, Append_chunk 0 False 11,
          Extend_chunk 2 False, Append_chunk 4 False 12]) \<le> int (2 ^ 64 - 1)"
    by (simp add: r0)
  show ?thesis
    using encoder_invariant_preserved [OF numpy2_exact init_encoder_invariant run bound]
      numpy2_exact run init_encoder_invariant r0
    by simp
qed

subsection \<open>Looking up the chunks of a sample\<close>










text \<open>
  An encoder built from the fresh one by calls that stay within the exact range of the
  cell arithmetic has what the lookup needs: sorted rows, one flag per row, and an exact
  \<open>num_samples\<close>.
\<close>

lemma built_encoder_ready:
  assumes ex: "exact_below B succ iadd"
    and built: "run_ops succ iadd init_encoder ops = Inr e"
    and bound: "sum_list (map op_samples ops) \<le> int B"
    and enc: "encoded e = Some es"
  shows "\<exists>cs. connectivity e = Some cs \<and> length cs = length es"
    and "sorted (map last_index_of es)"
    and "num_samples succ e = Inr (last_index_of (last es) + 1)"
proof -
  have r0: "recorded_samples init_encoder = 0"
    by (simp add: recorded_samples_def last_indices_def init_encoder_def)
  have inv: "encoder_invariant succ e"
    using run_ops_steps [OF ex init_encoder_invariant built] bound r0 by simp
  have "rows_match init_encoder" by (simp add: rows_match_def init_encoder_def)
  then have rm: "rows_match e" using built by (rule run_ops_rows_match)
  show "\<exists>cs. connectivity e = Some cs \<and> length cs = length es"
    using rm enc by (auto simp: rows_match_def split: option.splits)
  show "sorted (map last_index_of es)"
    using inv enc by (simp add: encoder_invariant_def last_indices_def)
  have "es \<noteq> []" using inv enc by (simp add: encoder_invariant_def)
  then show "num_samples succ e = Inr (last_index_of (last es) + 1)"
    using inv enc by (simp add: encoder_invariant_def recorded_samples_Some)
qed

section \<open>Reading back what was appended\<close>

lemma concat_split_chunks: "0 < n \<Longrightarrow> concat (split_chunks n xs) = xs"
proof (induction n xs rule: split_chunks.induct)
  case (1 n xs)
  show ?case
  proof (cases "xs = []")
    case True
    then show ?thesis by (simp add: split_chunks.simps)
  next
    case False
    with 1 have "concat (split_chunks n (drop n xs)) = drop n xs" by simp
    then show ?thesis
      using False "1.prems" by (subst split_chunks.simps) simp
  qed
qed

lemma split_chunks_nonempty: "0 < n \<Longrightarrow> xs \<noteq> [] \<Longrightarrow> split_chunks n xs \<noteq> []"
  by (subst split_chunks.simps) simp

lemma grows_to_length: "grows_to cs cs' \<Longrightarrow> cs \<noteq> [] \<Longrightarrow> length cs \<le> length cs'"
  by (auto simp: grows_to_def)

lemma grows_to_old:
  assumes "grows_to cs cs'" and "Suc i < length cs"
  shows "cs' ! i = cs ! i"
proof -
  from assms obtain t new where cs': "cs' = butlast cs @ [last cs @ t] @ new"
    by (auto simp: grows_to_def)
  have "i < length (butlast cs)" using assms(2) by simp
  then show ?thesis by (simp add: cs' nth_append nth_butlast)
qed

lemma grows_to_any:
  assumes "grows_to cs cs'" and "i < length cs"
  shows "\<exists>t. cs' ! i = cs ! i @ t"
proof (cases "Suc i < length cs")
  case True
  then show ?thesis using grows_to_old [OF assms(1)] by simp
next
  case False
  then have i: "i = length cs - 1" and ne: "cs \<noteq> []" using assms(2) by auto
  from assms ne obtain t new where cs': "cs' = butlast cs @ [last cs @ t] @ new"
    by (auto simp: grows_to_def)
  have "cs' ! i = last cs @ t" by (simp add: cs' i nth_append)
  then show ?thesis using i ne by (simp add: last_conv_nth)
qed

lemma grows_to_take_drop:
  assumes "grows_to cs cs'" and "k + n < length cs"
  shows "take n (drop k cs') = take n (drop k cs)"
proof (rule nth_equalityI)
  have "length cs \<le> length cs'" using assms grows_to_length by fastforce
  then show "length (take n (drop k cs')) = length (take n (drop k cs))"
    using assms(2) by simp
next
  fix i assume "i < length (take n (drop k cs'))"
  then have i: "i < n" by simp
  then have "Suc (k + i) < length cs" using assms(2) by simp
  then have "cs' ! (k + i) = cs ! (k + i)" by (rule grows_to_old [OF assms(1)])
  moreover have "length cs \<le> length cs'" using assms grows_to_length by fastforce
  ultimately show "take n (drop k cs') ! i = take n (drop k cs) ! i"
    using i assms(2) by simp
qed

lemma get_chunks_range:
  assumes "j \<le> length (chunks st key)"
  shows "get_chunks st key [i..<j] = Inr (take (j - i) (drop i (chunks st key)))"
  using assms
proof (induction "j - i" arbitrary: i)
  case 0
  then show ?case by simp
next
  case (Suc n)
  then have lt: "i < j" and n: "n = j - Suc i" by auto
  have ih: "get_chunks st key [Suc i..<j] = Inr (take (j - Suc i) (drop (Suc i) (chunks st key)))"
    using Suc.hyps(1) [OF n Suc.prems] .
  have il: "i < length (chunks st key)" using lt Suc.prems by simp
  have "take (j - i) (drop i (chunks st key))
          = chunks st key ! i # take (j - Suc i) (drop (Suc i) (chunks st key))"
    using lt il by (metis Cons_nth_drop_Suc Suc_diff_Suc take_Suc_Cons)
  then show ?case
    using lt il ih by (simp add: upt_conv_Cons get_chunk_def)
qed

lemma sample_single:
  assumes "start_chunk e = end_chunk e" and "settled (chunks st key) e"
  shows "sample_from_index_entry key st e dt
         = Inr \<lparr>dtype = dt, shape = entry_shape e,
                buf = take (end_byte e - start_byte e)
                        (drop (start_byte e) (chunks st key ! end_chunk e))\<rparr>"
  using assms
  by (simp add: sample_from_index_entry_def settled_def get_bytes_def get_chunk_def)

lemma sample_multi:
  assumes "start_chunk e \<noteq> end_chunk e" and "settled (chunks st key) e"
  shows "sample_from_index_entry key st e dt
         = Inr \<lparr>dtype = dt, shape = entry_shape e,
                buf = drop (start_byte e) (chunks st key ! start_chunk e)
                      @ concat (take (end_chunk e - Suc (start_chunk e))
                                  (drop (Suc (start_chunk e)) (chunks st key)))
                      @ take (end_byte e) (chunks st key ! end_chunk e)\<rparr>"
proof -
  have lt: "start_chunk e < end_chunk e" "end_chunk e < length (chunks st key)"
    using assms by (auto simp: settled_def)
  have mid: "get_chunks st key [Suc (start_chunk e)..<end_chunk e]
      = Inr (take (end_chunk e - Suc (start_chunk e)) (drop (Suc (start_chunk e)) (chunks st key)))"
    using get_chunks_range [of "end_chunk e" st key "Suc (start_chunk e)"] lt by simp
  show ?thesis
    using assms(1) lt by (simp add: sample_from_index_entry_def mid get_chunk_def)
qed

lemma settled_grows:
  assumes "settled cs e" and "grows_to cs cs'"
  shows "settled cs' e"
proof -
  have e: "end_chunk e < length cs" using assms(1) by (simp add: settled_def)
  then have ne: "cs \<noteq> []" by auto
  obtain t where t: "cs' ! end_chunk e = cs ! end_chunk e @ t"
    using grows_to_any [OF assms(2) e] by blast
  have "length cs \<le> length cs'" using grows_to_length [OF assms(2) ne] .
  then show ?thesis using assms(1) e t by (simp add: settled_def)
qed

lemma sample_grows:
  assumes se: "settled (chunks st key) e" and gr: "grows_to (chunks st key) (chunks st' key)"
  shows "sample_from_index_entry key st' e dt = sample_from_index_entry key st e dt"
proof -
  let ?cs = "chunks st key" and ?cs' = "chunks st' key"
  have se': "settled ?cs' e" using se gr by (rule settled_grows)
  have e: "end_chunk e < length ?cs" and eb: "end_byte e \<le> length (?cs ! end_chunk e)"
    using se by (simp_all add: settled_def)
  obtain t where t: "?cs' ! end_chunk e = ?cs ! end_chunk e @ t"
    using grows_to_any [OF gr e] by blast
  show ?thesis
  proof (cases "start_chunk e = end_chunk e")
    case True
    have "start_byte e \<le> end_byte e" using se True by (simp add: settled_def)
    then have "take (end_byte e - start_byte e) (drop (start_byte e) (?cs ! end_chunk e @ t))
        = take (end_byte e - start_byte e) (drop (start_byte e) (?cs ! end_chunk e))"
      using eb by simp
    then show ?thesis
      by (simp add: sample_single [OF True se] sample_single [OF True se'] t)
  next
    case False
    then have lt: "start_chunk e < end_chunk e" using se by (simp add: settled_def)
    have first: "?cs' ! start_chunk e = ?cs ! start_chunk e"
      using lt e by (intro grows_to_old [OF gr]) simp
    have mid: "take (end_chunk e - Suc (start_chunk e)) (drop (Suc (start_chunk e)) ?cs')
        = take (end_chunk e - Suc (start_chunk e)) (drop (Suc (start_chunk e)) ?cs)"
      using lt e by (intro grows_to_take_drop [OF gr]) simp
    have fin: "take (end_byte e) (?cs' ! end_chunk e) = take (end_byte e) (?cs ! end_chunk e)"
      using eb by (simp add: t)
    show ?thesis
      by (simp only: sample_multi [OF False se] sample_multi [OF False se'] first mid fin)
  qed
qed

lemma read_entries_grows:
  assumes "list_all (settled (chunks st key)) es"
    and "grows_to (chunks st key) (chunks st' key)"
  shows "read_entries key st' dt es = read_entries key st dt es"
  using assms
proof (induction es)
  case Nil
  then show ?case by simp
next
  case (Cons e es)
  then have e: "settled (chunks st key) e" and es: "list_all (settled (chunks st key)) es"
    by simp_all
  have ih: "read_entries key st' dt es = read_entries key st dt es"
    using Cons.IH [OF es Cons.prems(2)] .
  have sg: "sample_from_index_entry key st' e dt = sample_from_index_entry key st e dt"
    using e Cons.prems(2) by (rule sample_grows)
  show ?case unfolding read_entries.simps ih sg ..
qed

lemma read_entries_snoc:
  assumes "read_entries key st dt es = Inr as" and "sample_from_index_entry key st e dt = Inr a"
  shows "read_entries key st dt (es @ [e]) = Inr (as @ [a])"
  using assms by (induction es arbitrary: as) (auto split: sum.splits)


lemma snoc_chunks_length:
  "cs \<noteq> [] \<Longrightarrow> length (butlast cs @ [x] @ new) = length cs + length new"
  by (cases cs rule: rev_cases) simp_all

lemma snoc_chunks_first: "cs \<noteq> [] \<Longrightarrow> (butlast cs @ [x] @ new) ! (length cs - 1) = x"
  by (cases cs rule: rev_cases) simp_all

lemma snoc_chunks_final:
  "cs \<noteq> [] \<Longrightarrow> new \<noteq> [] \<Longrightarrow> (butlast cs @ [x] @ new) ! (length cs - 1 + length new) = last new"
  by (cases cs rule: rev_cases; cases new rule: rev_cases) (simp_all add: nth_append)

lemma snoc_chunks_middle:
  "cs \<noteq> [] \<Longrightarrow>
     take (length cs - 1 + length new - Suc (length cs - 1))
       (drop (Suc (length cs - 1)) (butlast cs @ [x] @ new)) = butlast new"
  by (cases cs rule: rev_cases) (simp_all add: butlast_conv_take)

lemma new_chunks_first: "new \<noteq> [] \<Longrightarrow> (cs @ new) ! length cs = hd new"
  by (cases new) simp_all

lemma new_chunks_final:
  "new \<noteq> [] \<Longrightarrow> (cs @ new) ! (length cs + length new - 1) = last new"
  by (cases new rule: rev_cases) (simp_all add: nth_append)

lemma new_chunks_middle:
  "take (length cs + length new - 1 - Suc (length cs)) (drop (Suc (length cs)) (cs @ new))
     = butlast (tl new)"
  by (cases new) (simp_all add: butlast_conv_take)

lemma concat_ends:
  "tl new \<noteq> [] \<Longrightarrow> hd new @ concat (butlast (tl new)) @ last new = concat new"
proof -
  assume a: "tl new \<noteq> []"
  then obtain x xs where new: "new = x # xs" and xs: "xs \<noteq> []" by (cases new) auto
  have "concat xs = concat (butlast xs) @ last xs"
    using xs by (metis append_butlast_last_id concat_append concat.simps append_Nil2)
  then show ?thesis using xs by (simp add: new)
qed

lemma write_bytes_metas: "tensor_metas (write_bytes b key csize st shp) = tensor_metas st"
  by (simp add: write_bytes_def Let_def)

lemma write_bytes_fits:
  assumes ne: "chunks st key \<noteq> []" and op: "length (last (chunks st key)) < csize"
    and fits: "length b \<le> csize - length (last (chunks st key))"
  shows "\<exists>e. index_maps (write_bytes b key csize st shp) key = index_maps st key @ [e]
           \<and> grows_to (chunks st key) (chunks (write_bytes b key csize st shp) key)
           \<and> settled (chunks (write_bytes b key csize st shp) key) e
           \<and> sample_from_index_entry key (write_bytes b key csize st shp) e dt
               = Inr \<lparr>dtype = dt, shape = shp, buf = b\<rparr>"
proof -
  define cs where "cs = chunks st key"
  define st' where "st' = write_bytes b key csize st shp"
  define e where "e = \<lparr>start_chunk = length cs - 1, end_chunk = length cs - 1,
             start_byte = length (last cs), end_byte = length (last cs) + length b,
             entry_shape = shp\<rparr>"
  have cs_ne: "cs \<noteq> []" using ne by (simp add: cs_def)
  have cs': "chunks st' key = butlast cs @ [last cs @ b] @ []"
    and im: "index_maps st' key = index_maps st key @ [e]"
    using ne op fits by (simp_all add: write_bytes_def Let_def st'_def cs_def e_def)
  have at: "chunks st' key ! (length cs - 1) = last cs @ b"
    unfolding cs' using cs_ne by (rule snoc_chunks_first)
  have len: "length (chunks st' key) = length cs"
    unfolding cs' using snoc_chunks_length [OF cs_ne] by simp
  have gr: "grows_to cs (chunks st' key)"
    unfolding grows_to_def cs' by blast
  have se: "settled (chunks st' key) e"
    using cs_ne by (simp add: settled_def e_def at [unfolded One_nat_def] len)
  have same: "start_chunk e = end_chunk e" by (simp add: e_def)
  have sel: "end_chunk e = length cs - 1" "start_byte e = length (last cs)"
    "end_byte e = length (last cs) + length b" "entry_shape e = shp"
    by (simp_all add: e_def)
  have rd: "sample_from_index_entry key st' e dt = Inr \<lparr>dtype = dt, shape = shp, buf = b\<rparr>"
    unfolding sample_single [OF same se] sel at by simp
  show ?thesis using im gr se rd unfolding st'_def cs_def by blast
qed

lemma write_bytes_overflows:
  assumes pos: "0 < csize"
    and ne: "chunks st key \<noteq> []" and op: "length (last (chunks st key)) < csize"
    and big: "\<not> length b \<le> csize - length (last (chunks st key))"
  shows "\<exists>e. index_maps (write_bytes b key csize st shp) key = index_maps st key @ [e]
           \<and> grows_to (chunks st key) (chunks (write_bytes b key csize st shp) key)
           \<and> settled (chunks (write_bytes b key csize st shp) key) e
           \<and> sample_from_index_entry key (write_bytes b key csize st shp) e dt
               = Inr \<lparr>dtype = dt, shape = shp, buf = b\<rparr>"
proof -
  define cs where "cs = chunks st key"
  define st' where "st' = write_bytes b key csize st shp"
  define rem where "rem = csize - length (last cs)"
  define new where "new = split_chunks csize (drop rem b)"
  define e where "e = \<lparr>start_chunk = length cs - 1, end_chunk = length cs - 1 + length new,
             start_byte = length (last cs), end_byte = length (last new),
             entry_shape = shp\<rparr>"
  have cs_ne: "cs \<noteq> []" using ne by (simp add: cs_def)
  have cs': "chunks st' key = butlast cs @ [last cs @ take rem b] @ new"
    and im: "index_maps st' key = index_maps st key @ [e]"
    using ne op big
    by (simp_all add: write_bytes_def Let_def st'_def cs_def e_def new_def rem_def)
  have new_ne: "new \<noteq> []"
    unfolding new_def using big by (intro split_chunks_nonempty [OF pos]) (simp add: rem_def cs_def)
  have cat: "concat new = drop rem b"
    unfolding new_def using pos by (rule concat_split_chunks)
  have first: "chunks st' key ! (length cs - 1) = last cs @ take rem b"
    unfolding cs' using cs_ne by (rule snoc_chunks_first)
  have final: "chunks st' key ! (length cs - 1 + length new) = last new"
    unfolding cs' using cs_ne new_ne by (rule snoc_chunks_final)
  have middle: "take (length cs - 1 + length new - Suc (length cs - 1))
                  (drop (Suc (length cs - 1)) (chunks st' key)) = butlast new"
    unfolding cs' using cs_ne by (rule snoc_chunks_middle)
  have len: "length (chunks st' key) = length cs + length new"
    unfolding cs' using cs_ne by (rule snoc_chunks_length)
  have gr: "grows_to cs (chunks st' key)"
    unfolding grows_to_def cs' by blast
  have se: "settled (chunks st' key) e"
    using cs_ne new_ne by (simp add: settled_def e_def final [unfolded One_nat_def] len)
  have diff: "start_chunk e \<noteq> end_chunk e" using new_ne by (simp add: e_def)
  have "concat (butlast new) @ last new = concat new"
    using new_ne by (metis append_butlast_last_id concat_append concat.simps append_Nil2)
  then have bytes: "drop (length (last cs)) (last cs @ take rem b) @ concat (butlast new)
      @ take (length (last new)) (last new) = b"
    by (simp add: cat)
  have sel: "start_chunk e = length cs - 1" "end_chunk e = length cs - 1 + length new"
    "start_byte e = length (last cs)" "end_byte e = length (last new)" "entry_shape e = shp"
    by (simp_all add: e_def)
  have rd: "sample_from_index_entry key st' e dt = Inr \<lparr>dtype = dt, shape = shp, buf = b\<rparr>"
    unfolding sample_multi [OF diff se] sel first final middle bytes ..
  show ?thesis using im gr se rd unfolding st'_def cs_def by blast
qed

lemma write_bytes_opens:
  assumes pos: "0 < csize"
    and closed: "\<not> (chunks st key \<noteq> [] \<and> length (last (chunks st key)) < csize)"
  shows "\<exists>e. index_maps (write_bytes b key csize st shp) key = index_maps st key @ [e]
           \<and> grows_to (chunks st key) (chunks (write_bytes b key csize st shp) key)
           \<and> settled (chunks (write_bytes b key csize st shp) key) e
           \<and> sample_from_index_entry key (write_bytes b key csize st shp) e dt
               = Inr \<lparr>dtype = dt, shape = shp, buf = b\<rparr>"
proof -
  define cs where "cs = chunks st key"
  define st' where "st' = write_bytes b key csize st shp"
  define new where "new = (if b = [] then [[]] else split_chunks csize b)"
  define e where "e = \<lparr>start_chunk = length cs, end_chunk = length cs + length new - 1,
             start_byte = 0, end_byte = length (last new), entry_shape = shp\<rparr>"
  have cs': "chunks st' key = cs @ new"
    and im: "index_maps st' key = index_maps st key @ [e]"
    using closed
    by (auto simp add: write_bytes_def Let_def st'_def cs_def e_def new_def)
  have new_ne: "new \<noteq> []"
    unfolding new_def using split_chunks_nonempty [OF pos, of b] by simp
  have cat: "concat new = b"
    unfolding new_def using concat_split_chunks [OF pos, of b] by simp
  have first: "chunks st' key ! length cs = hd new"
    unfolding cs' using new_ne by (rule new_chunks_first)
  have final: "chunks st' key ! (length cs + length new - 1) = last new"
    unfolding cs' using new_ne by (rule new_chunks_final)
  have middle: "take (length cs + length new - 1 - Suc (length cs))
                  (drop (Suc (length cs)) (chunks st' key)) = butlast (tl new)"
    unfolding cs' by (rule new_chunks_middle)
  have gr: "grows_to cs (chunks st' key)"
  proof (cases "cs = []")
    case True
    then show ?thesis by (simp add: grows_to_def)
  next
    case False
    then have "cs @ new = butlast cs @ [last cs @ []] @ new" by simp
    then show ?thesis unfolding grows_to_def cs' by blast
  qed
  have len: "length (chunks st' key) = length cs + length new"
    by (simp add: cs')
  have lnew: "0 < length new" using new_ne by simp
  have ar: "length cs \<le> length cs + length new - Suc 0"
    "length cs + length new - Suc 0 < length cs + length new"
    using lnew by arith+
  have se: "settled (chunks st' key) e"
    by (simp add: settled_def e_def final [unfolded One_nat_def] len ar)
  have sel: "start_chunk e = length cs" "end_chunk e = length cs + length new - 1"
    "start_byte e = 0" "end_byte e = length (last new)" "entry_shape e = shp"
    by (simp_all add: e_def)
  have rd: "sample_from_index_entry key st' e dt = Inr \<lparr>dtype = dt, shape = shp, buf = b\<rparr>"
  proof (cases "tl new = []")
    case True
    then have one: "new = [hd new]" using new_ne by (cases new) auto
    then have l1: "length new = 1" by (metis length_Cons list.size(3) One_nat_def)
    have same: "start_chunk e = end_chunk e" by (simp add: e_def l1)
    have "last new = concat new" using one by (metis concat.simps append_Nil2 last.simps)
    then have "last new = b" by (simp add: cat)
    then show ?thesis
      unfolding sample_single [OF same se] sel final by simp
  next
    case False
    then have "1 < length new" by (cases new) auto
    then have diff: "start_chunk e \<noteq> end_chunk e" by (simp add: e_def)
    have "hd new @ concat (butlast (tl new)) @ last new = b"
      using concat_ends [OF False] cat by simp
    then show ?thesis
      unfolding sample_multi [OF diff se] sel first final middle by simp
  qed
  show ?thesis using im gr se rd unfolding st'_def cs_def by blast
qed

lemma write_bytes_effect:
  assumes "0 < csize"
  shows "\<exists>e. index_maps (write_bytes b key csize st shp) key = index_maps st key @ [e]
           \<and> grows_to (chunks st key) (chunks (write_bytes b key csize st shp) key)
           \<and> settled (chunks (write_bytes b key csize st shp) key) e
           \<and> sample_from_index_entry key (write_bytes b key csize st shp) e dt
               = Inr \<lparr>dtype = dt, shape = shp, buf = b\<rparr>"
  using write_bytes_fits [of st key csize b] write_bytes_overflows [OF assms, of st key b]
    write_bytes_opens [OF assms, of st key b]
  by blast


lemma read_entries_same_chunks:
  assumes "chunks st' key = chunks st key"
  shows "read_entries key st' dt es = read_entries key st dt es"
proof -
  have gc: "get_chunk st' key i = get_chunk st key i" for i
    using assms by (simp add: get_chunk_def)
  have gcs: "get_chunks st' key is = get_chunks st key is" for "is"
  proof (induction "is")
    case Nil
    show ?case by simp
  next
    case (Cons i "is")
    show ?case unfolding get_chunks.simps gc Cons.IH ..
  qed
  have se: "sample_from_index_entry key st' e dt = sample_from_index_entry key st e dt" for e
    unfolding sample_from_index_entry_def get_bytes_def gc gcs ..
  show ?thesis
  proof (induction es)
    case Nil
    show ?case by simp
  next
    case (Cons e es)
    show ?case unfolding read_entries.simps se Cons.IH ..
  qed
qed

lemma sample_at_single:
  "sample_at (a\<lparr>shape := 1 # shape a\<rparr>) 0 = (a :: ndarray)"
  by (simp add: sample_at_def)

lemma append_holds:
  assumes pos: "0 < chunk_size m"
    and hs: "holds_samples key m st as"
    and dt: "dtype a = meta_dtype m"
    and mx: "shape a = max_shape m" and mn: "shape a = min_shape m"
  shows "\<exists>st'. add_samples_to_tensor a key st False = (None, st')
               \<and> holds_samples key m st' (as @ [a])"
proof -
  let ?m = "m\<lparr>meta_length := length as\<rparr>"
  define st1 where "st1 = write_bytes (buf a) key (chunk_size m) st (shape a)"
  define st' where "st' = write_tensor_meta key st1 (?m\<lparr>meta_length := meta_length ?m + 1\<rparr>)"
  have meta: "tensor_metas st key = Some ?m"
    and old_settled: "list_all (settled (chunks st key)) (index_maps st key)"
    and old_read: "read_entries key st (meta_dtype m) (index_maps st key) = Inr as"
    using hs by (simp_all add: holds_samples_def)
  have ok: "check_array_and_tensor_are_compatible ?m (a\<lparr>shape := 1 # shape a\<rparr>) = None"
    using dt mx mn by (simp add: check_array_and_tensor_are_compatible_def)
  have run: "add_samples_to_tensor a key st False = (None, st')"
    unfolding add_samples_to_tensor_def normalize_and_batchify_shape_def
    by (simp add: Let_def tensor_exists_def meta ok [unfolded One_nat_def]
          sample_at_single [unfolded One_nat_def] row_wise_to_bytes_def st'_def st1_def)
  obtain e where im: "index_maps st1 key = index_maps st key @ [e]"
    and gr: "grows_to (chunks st key) (chunks st1 key)"
    and se: "settled (chunks st1 key) e"
    and rd: "sample_from_index_entry key st1 e (meta_dtype m)
               = Inr \<lparr>dtype = meta_dtype m, shape = shape a, buf = buf a\<rparr>"
    unfolding st1_def using write_bytes_effect [OF pos, of "buf a" key st "shape a" "meta_dtype m"]
    by blast
  have a: "\<lparr>dtype = meta_dtype m, shape = shape a, buf = buf a\<rparr> = a"
    using dt by simp
  have st1_meta: "tensor_metas st1 = tensor_metas st"
    unfolding st1_def by (rule write_bytes_metas)
  have ch: "chunks st' key = chunks st1 key" and ix: "index_maps st' key = index_maps st1 key"
    by (simp_all add: st'_def write_tensor_meta_def)
  have m': "tensor_metas st' key = Some (m\<lparr>meta_length := length (as @ [a])\<rparr>)"
    by (simp add: st'_def write_tensor_meta_def)
  have all_settled: "list_all (settled (chunks st1 key)) (index_maps st key @ [e])"
    using old_settled se gr by (auto simp: list_all_iff intro: settled_grows)
  have "read_entries key st1 (meta_dtype m) (index_maps st key) = Inr as"
    using read_entries_grows [OF old_settled gr] old_read by simp
  then have "read_entries key st1 (meta_dtype m) (index_maps st key @ [e]) = Inr (as @ [a])"
    using rd a by (intro read_entries_snoc) simp_all
  then have rd': "read_entries key st' (meta_dtype m) (index_maps st' key) = Inr (as @ [a])"
    by (simp add: read_entries_same_chunks [OF ch] ix im)
  have "holds_samples key m st' (as @ [a])"
    unfolding holds_samples_def using m' all_settled rd' by (simp add: ch ix im)
  then show ?thesis using run by blast
qed

lemma append_all_holds:
  assumes pos: "0 < chunk_size m"
    and hs: "holds_samples key m st pre"
    and ok: "\<forall>a \<in> set as. dtype a = meta_dtype m \<and> shape a = max_shape m \<and> shape a = min_shape m"
  shows "\<exists>st'. append_all as key st = (None, st') \<and> holds_samples key m st' (pre @ as)"
  using hs ok
proof (induction as arbitrary: st pre)
  case Nil
  then show ?case by simp
next
  case (Cons a as)
  have "a \<in> set (a # as)" by simp
  with Cons.prems(2) have a: "dtype a = meta_dtype m" "shape a = max_shape m" "shape a = min_shape m"
    by blast+
  obtain st1 where one: "add_samples_to_tensor a key st False = (None, st1)"
    and h1: "holds_samples key m st1 (pre @ [a])"
    using append_holds [OF pos Cons.prems(1) a] by blast
  from Cons.prems(2) have rest: "\<forall>a \<in> set as. dtype a = meta_dtype m
      \<and> shape a = max_shape m \<and> shape a = min_shape m"
    by (meson list.set_intros(2))
  obtain st' where "append_all as key st1 = (None, st')"
    and "holds_samples key m st' ((pre @ [a]) @ as)"
    using Cons.IH [OF h1 rest] by blast
  then show ?case using one by simp
qed

lemma np_array_stack:
  assumes "as \<noteq> []" and "\<forall>a \<in> set as. dtype a = d \<and> shape a = S"
  shows "np_array as = Inr (stack as)"
    and "stack as = \<lparr>dtype = d, shape = length as # S, buf = concat (map buf as)\<rparr>"
proof -
  obtain a rest where as: "as = a # rest" using assms(1) by (cases as) auto
  have "list_all (\<lambda>x. shape x = shape a) as"
    using assms(2) as by (simp add: list_all_iff)
  then show "np_array as = Inr (stack as)"
    by (simp add: np_array_def stack_def as)
  show "stack as = \<lparr>dtype = d, shape = length as # S, buf = concat (map buf as)\<rparr>"
    using assms(2) by (simp add: stack_def as)
qed

text \<open>
  C1. A tensor is created with \<open>min_shape = max_shape = S\<close> in a storage whose index map
  for the key is empty, and arrays of shape \<open>S\<close> and of the tensor's dtype are appended one
  by one. Every append succeeds, and the full read returns the arrays stacked: dtype of the
  tensor, shape \<open>(n,) + S\<close>, and the buffers of the arrays one after the other.
\<close>

theorem numpy_equals_stack:
  assumes created: "create_tensor validate key st0 meta = (None, st)"
    and fresh: "index_maps st0 key = []"
    and pos: "0 < chunk_size meta"
    and fixed: "min_shape meta = S" "max_shape meta = S"
    and samples: "\<forall>a \<in> set as. dtype a = meta_dtype meta \<and> shape a = S"
    and ne: "as \<noteq> []"
  shows "\<exists>st'. append_all as key st = (None, st')
           \<and> read_samples_from_tensor key st' = Inr (stack as)
           \<and> stack as = \<lparr>dtype = meta_dtype meta, shape = length as # S,
                           buf = concat (map buf as)\<rparr>"
proof -
  let ?m = "meta\<lparr>meta_length := 0\<rparr>"
  have st: "st = write_tensor_meta key st0 ?m"
    using created by (auto simp: create_tensor_def Let_def split: if_splits option.splits)
  have h0: "holds_samples key ?m st []"
    by (simp add: holds_samples_def st write_tensor_meta_def fresh)
  have ok: "\<forall>a \<in> set as. dtype a = meta_dtype ?m \<and> shape a = max_shape ?m \<and> shape a = min_shape ?m"
    using samples fixed by simp
  have pos': "0 < chunk_size ?m" using pos by simp
  obtain st' where run: "append_all as key st = (None, st')"
    and h: "holds_samples key ?m st' ([] @ as)"
    using append_all_holds [OF pos' h0 ok] by blast
  have "read_samples_from_tensor key st' = np_array as"
    using h by (simp add: read_samples_from_tensor_def holds_samples_def)
  then show ?thesis
    using run np_array_stack [OF ne samples] by simp
qed

theorem numpy_equals_stack_witness:
  "\<exists>st'. append_all
           [\<lparr>dtype = ''uint8'', shape = [3], buf = [1, 2, 3]\<rparr>,
            \<lparr>dtype = ''uint8'', shape = [3], buf = [4, 5, 6]\<rparr>,
            \<lparr>dtype = ''uint8'', shape = [3], buf = [7, 8, 9]\<rparr>] ''image''
           \<lparr>tensor_metas = [''image'' \<mapsto> \<lparr>meta_dtype = ''uint8'', meta_length = 0, min_shape = [3],
                                             max_shape = [3], chunk_size = 4\<rparr>],
             index_maps = (\<lambda>_. []), chunks = (\<lambda>_. [])\<rparr> = (None, st')
         \<and> read_samples_from_tensor ''image'' st'
             = Inr \<lparr>dtype = ''uint8'', shape = [3, 3], buf = [1, 2, 3, 4, 5, 6, 7, 8, 9]\<rparr>"
  using numpy_equals_stack [of "\<lambda>_. None" "''image''"
      "\<lparr>tensor_metas = Map.empty, index_maps = (\<lambda>_. []), chunks = (\<lambda>_. [])\<rparr>"
      "\<lparr>meta_dtype = ''uint8'', meta_length = 7, min_shape = [3], max_shape = [3], chunk_size = 4\<rparr>"
      "\<lparr>tensor_metas = [''image'' \<mapsto> \<lparr>meta_dtype = ''uint8'', meta_length = 0, min_shape = [3],
                                             max_shape = [3], chunk_size = 4\<rparr>],
             index_maps = (\<lambda>_. []), chunks = (\<lambda>_. [])\<rparr>"
      "[3]"
      "[\<lparr>dtype = ''uint8'', shape = [3], buf = [1, 2, 3]\<rparr>,
        \<lparr>dtype = ''uint8'', shape = [3], buf = [4, 5, 6]\<rparr>,
        \<lparr>dtype = ''uint8'', shape = [3], buf = [7, 8, 9]\<rparr>]"]
  by (auto simp add: create_tensor_def tensor_exists_def write_tensor_meta_def numeral_3_eq_3
        simp del: append_all.simps)

section \<open>Validation before writing\<close>

lemma write_bytes_index_length:
  "length (index_maps (write_bytes b key csize st shp) key) = Suc (length (index_maps st key))"
  by (simp add: write_bytes_def Let_def)

lemma fold_write_bytes_index_length:
  "length (index_maps (fold (\<lambda>i s. write_bytes (f i) key csize s (g i)) is st) key)
   = length (index_maps st key) + length is"
  by (induction "is" arbitrary: st) (simp_all add: write_bytes_index_length)

lemma fold_write_bytes_metas:
  "tensor_metas (fold (\<lambda>i s. write_bytes (f i) key csize s (g i)) is st) = tensor_metas st"
  by (induction "is" arbitrary: st) (simp_all add: write_bytes_metas)

lemma dtype_mismatch_rejected:
  assumes "tensor_metas st key = Some m" and "meta_dtype m \<noteq> dtype a"
  shows "add_samples_to_tensor a key st batched
         = (Some (TensorMetaMismatchError (Str ''dtype'') (Str (meta_dtype m)) (Str (dtype a))), st)"
  using assms
  by (simp add: add_samples_to_tensor_def tensor_exists_def Let_def
        check_array_and_tensor_are_compatible_def normalize_and_batchify_shape_def)

text \<open>
  C6. On a tensor just created with a dtype, appending an array of another dtype returns
  \<open>TensorMetaMismatchError("dtype", expected, got)\<close> and the storage is the one before the
  call: nothing was written, and the length of the tensor is still 0. For dtype \<open>uint8\<close>
  and an array of \<open>float64\<close> the error is \<open>TensorMetaMismatchError("dtype", "uint8",
  "float64")\<close>.
\<close>

theorem append_dtype_mismatch:
  assumes created: "create_tensor validate key st0 meta = (None, st)"
    and differs: "meta_dtype meta \<noteq> dtype a"
  shows "add_samples_to_tensor a key st batched
           = (Some (TensorMetaMismatchError (Str ''dtype'') (Str (meta_dtype meta))
                      (Str (dtype a))), st)
         \<and> Tensor_len key (snd (add_samples_to_tensor a key st batched)) = Inr 0"
proof -
  let ?m = "meta\<lparr>meta_length := 0\<rparr>"
  have st: "st = write_tensor_meta key st0 ?m"
    using created by (auto simp: create_tensor_def Let_def split: if_splits option.splits)
  have meta: "tensor_metas st key = Some ?m"
    by (simp add: st write_tensor_meta_def)
  have "meta_dtype ?m \<noteq> dtype a" using differs by simp
  from dtype_mismatch_rejected [OF meta this]
  have rej: "add_samples_to_tensor a key st batched
      = (Some (TensorMetaMismatchError (Str ''dtype'') (Str (meta_dtype meta)) (Str (dtype a))), st)"
    by simp
  show ?thesis unfolding rej by (simp add: Tensor_len_def meta)
qed

theorem append_dtype_mismatch_witness:
  "add_samples_to_tensor
     \<lparr>dtype = ''float64'', shape = [100],
       buf = concat (replicate 100 [0, 0, 0, 0, 0, 0, 240, 63])\<rparr> ''tensor''
     \<lparr>tensor_metas = [''tensor'' \<mapsto> \<lparr>meta_dtype = ''uint8'', meta_length = 0, min_shape = [100],
                                        max_shape = [100], chunk_size = 16\<rparr>],
       index_maps = (\<lambda>_. []), chunks = (\<lambda>_. [])\<rparr> False
   = (Some (TensorMetaMismatchError (Str ''dtype'') (Str ''uint8'') (Str ''float64'')),
      \<lparr>tensor_metas = [''tensor'' \<mapsto> \<lparr>meta_dtype = ''uint8'', meta_length = 0, min_shape = [100],
                                        max_shape = [100], chunk_size = 16\<rparr>],
       index_maps = (\<lambda>_. []), chunks = (\<lambda>_. [])\<rparr>)"
  using append_dtype_mismatch [of "\<lambda>_. None" "''tensor''"
      "\<lparr>tensor_metas = Map.empty, index_maps = (\<lambda>_. []), chunks = (\<lambda>_. [])\<rparr>"
      "\<lparr>meta_dtype = ''uint8'', meta_length = 0, min_shape = [100],
                                        max_shape = [100], chunk_size = 16\<rparr>"
      "\<lparr>tensor_metas = [''tensor'' \<mapsto> \<lparr>meta_dtype = ''uint8'', meta_length = 0, min_shape = [100],
                                        max_shape = [100], chunk_size = 16\<rparr>],
       index_maps = (\<lambda>_. []), chunks = (\<lambda>_. [])\<rparr>"
      "\<lparr>dtype = ''float64'', shape = [100],
       buf = concat (replicate 100 [0, 0, 0, 0, 0, 0, 240, 63])\<rparr>" False]
  by (simp add: create_tensor_def tensor_exists_def write_tensor_meta_def)

section \<open>Shapes of appended samples\<close>

text \<open>
  C2, as the claim states it, fails. After a sample of shape \<open>(2, 2)\<close> was appended to a
  tensor with \<open>min_shape = max_shape = (2, 2)\<close>, a sample of shape \<open>(3, 1)\<close>, of the same
  rank and dtype, is refused and the storage stays as the first append left it, with the
  bounds unchanged. In the same way the second extend of scenario 2, samples of shape
  \<open>(36, 11)\<close> on a tensor with bounds \<open>(28, 28)\<close>, is refused.
\<close>

theorem dynamic_shape_counterexample:
  "append_all
     [\<lparr>dtype = ''uint8'', shape = [2, 2], buf = [1, 2, 3, 4]\<rparr>,
      \<lparr>dtype = ''uint8'', shape = [3, 1], buf = [5, 6, 7]\<rparr>] ''image''
     \<lparr>tensor_metas = [''image'' \<mapsto> \<lparr>meta_dtype = ''uint8'', meta_length = 0,
                                     min_shape = [2, 2], max_shape = [2, 2], chunk_size = 16\<rparr>],
       index_maps = (\<lambda>_. []), chunks = (\<lambda>_. [])\<rparr>
   = (Some (NotImplementedError ''Dynamic shapes are not supported yet.''),
      \<lparr>tensor_metas = [''image'' \<mapsto> \<lparr>meta_dtype = ''uint8'', meta_length = 1,
                                     min_shape = [2, 2], max_shape = [2, 2], chunk_size = 16\<rparr>],
       index_maps = (\<lambda>_. [])(''image'' := [\<lparr>start_chunk = 0, end_chunk = 0, start_byte = 0,
                                              end_byte = 4, entry_shape = [2, 2]\<rparr>]),
       chunks = (\<lambda>_. [])(''image'' := [[1, 2, 3, 4]])\<rparr>)
   \<and> add_samples_to_tensor
       \<lparr>dtype = ''float64'', shape = [10, 36, 11],
         buf = concat (replicate 3960 [0, 0, 0, 0, 0, 0, 240, 63])\<rparr> ''image''
       \<lparr>tensor_metas = [''image'' \<mapsto> \<lparr>meta_dtype = ''float64'', meta_length = 32,
                                       min_shape = [28, 28], max_shape = [28, 28],
                                       chunk_size = 16\<rparr>],
         index_maps = (\<lambda>_. []), chunks = (\<lambda>_. [])\<rparr> True
     = (Some (NotImplementedError ''Dynamic shapes are not supported yet.''),
        \<lparr>tensor_metas = [''image'' \<mapsto> \<lparr>meta_dtype = ''float64'', meta_length = 32,
                                       min_shape = [28, 28], max_shape = [28, 28],
                                       chunk_size = 16\<rparr>],
         index_maps = (\<lambda>_. []), chunks = (\<lambda>_. [])\<rparr>)"
proof -
  have sp: "split_chunks 16 [1, 2, 3, 4] = [[1, 2, 3, 4]]"
    by (simp add: split_chunks.simps)
  have history: "append_all
     [\<lparr>dtype = ''uint8'', shape = [2, 2], buf = [1, 2, 3, 4]\<rparr>,
      \<lparr>dtype = ''uint8'', shape = [3, 1], buf = [5, 6, 7]\<rparr>] ''image''
     \<lparr>tensor_metas = [''image'' \<mapsto> \<lparr>meta_dtype = ''uint8'', meta_length = 0,
                                     min_shape = [2, 2], max_shape = [2, 2], chunk_size = 16\<rparr>],
       index_maps = (\<lambda>_. []), chunks = (\<lambda>_. [])\<rparr>
   = (Some (NotImplementedError ''Dynamic shapes are not supported yet.''),
      \<lparr>tensor_metas = [''image'' \<mapsto> \<lparr>meta_dtype = ''uint8'', meta_length = 1,
                                     min_shape = [2, 2], max_shape = [2, 2], chunk_size = 16\<rparr>],
       index_maps = (\<lambda>_. [])(''image'' := [\<lparr>start_chunk = 0, end_chunk = 0, start_byte = 0,
                                              end_byte = 4, entry_shape = [2, 2]\<rparr>]),
       chunks = (\<lambda>_. [])(''image'' := [[1, 2, 3, 4]])\<rparr>)"
    by (simp add: add_samples_to_tensor_def tensor_exists_def Let_def
        check_array_and_tensor_are_compatible_def normalize_and_batchify_shape_def
        write_bytes_def sample_at_def row_wise_to_bytes_def write_tensor_meta_def sp)
       (simp add: eval_nat_numeral)
  have scenario: "add_samples_to_tensor
       \<lparr>dtype = ''float64'', shape = [10, 36, 11],
         buf = concat (replicate 3960 [0, 0, 0, 0, 0, 0, 240, 63])\<rparr> ''image''
       \<lparr>tensor_metas = [''image'' \<mapsto> \<lparr>meta_dtype = ''float64'', meta_length = 32,
                                       min_shape = [28, 28], max_shape = [28, 28],
                                       chunk_size = 16\<rparr>],
         index_maps = (\<lambda>_. []), chunks = (\<lambda>_. [])\<rparr> True
     = (Some (NotImplementedError ''Dynamic shapes are not supported yet.''),
        \<lparr>tensor_metas = [''image'' \<mapsto> \<lparr>meta_dtype = ''float64'', meta_length = 32,
                                       min_shape = [28, 28], max_shape = [28, 28],
                                       chunk_size = 16\<rparr>],
         index_maps = (\<lambda>_. []), chunks = (\<lambda>_. [])\<rparr>)"
    by (simp add: add_samples_to_tensor_def tensor_exists_def Let_def
        check_array_and_tensor_are_compatible_def normalize_and_batchify_shape_def)
  show ?thesis using history scenario by (rule conjI)
qed

text \<open>
  C2, amended. For a sample of the tensor's dtype whose rank is that of \<open>min_shape\<close>, the
  outcome of the append is decided by its shape alone. When the shape equals both
  \<open>max_shape\<close> and \<open>min_shape\<close> the append succeeds: it adds one entry to the index map for
  each sample of the batch, raises the length in the meta by the size of the batch and
  leaves the two bounds as they were. When the shape differs from one of the bounds the
  append returns \<open>NotImplementedError\<close> and leaves the storage as it was. The two cases
  left are a \<open>max_shape\<close> of another rank, which is reported as a mismatch, and a batch
  without a first axis, whose length cannot be read.
\<close>

theorem append_requires_fixed_shape:
  assumes meta: "tensor_metas st key = Some m"
    and dt: "dtype a = meta_dtype m"
    and rank: "length (tl (shape (normalize_and_batchify_shape a batched))) = length (min_shape m)"
  shows "(tl (shape (normalize_and_batchify_shape a batched)) = max_shape m
            \<and> tl (shape (normalize_and_batchify_shape a batched)) = min_shape m
            \<and> shape (normalize_and_batchify_shape a batched) \<noteq> []
          \<longrightarrow> fst (add_samples_to_tensor a key st batched) = None
              \<and> tensor_metas (snd (add_samples_to_tensor a key st batched)) key
                  = Some (m\<lparr>meta_length := meta_length m
                                + hd (shape (normalize_and_batchify_shape a batched))\<rparr>)
              \<and> length (index_maps (snd (add_samples_to_tensor a key st batched)) key)
                  = length (index_maps st key)
                    + hd (shape (normalize_and_batchify_shape a batched)))
       \<and> (length (max_shape m) = length (min_shape m)
            \<and> (tl (shape (normalize_and_batchify_shape a batched)) \<noteq> max_shape m
                \<or> tl (shape (normalize_and_batchify_shape a batched)) \<noteq> min_shape m)
          \<longrightarrow> add_samples_to_tensor a key st batched
                = (Some (NotImplementedError ''Dynamic shapes are not supported yet.''), st))
       \<and> (length (max_shape m) \<noteq> length (min_shape m)
          \<longrightarrow> add_samples_to_tensor a key st batched
                = (Some (TensorMetaMismatchError (Str ''max_shape'') (Shape (max_shape m))
                     (Num (length (tl (shape (normalize_and_batchify_shape a batched)))))), st))
       \<and> (tl (shape (normalize_and_batchify_shape a batched)) = max_shape m
            \<and> tl (shape (normalize_and_batchify_shape a batched)) = min_shape m
            \<and> shape (normalize_and_batchify_shape a batched) = []
          \<longrightarrow> add_samples_to_tensor a key st batched = (Some IndexError, st))"
proof -
  define arr where "arr = normalize_and_batchify_shape a batched"
  have dt': "meta_dtype m = dtype arr"
    using dt by (simp add: arr_def normalize_and_batchify_shape_def)
  note rank' = rank [folded arr_def]
  have chk: "check_array_and_tensor_are_compatible m arr
      = (if length (max_shape m) \<noteq> length (min_shape m)
         then Some (TensorMetaMismatchError (Str ''max_shape'') (Shape (max_shape m))
                      (Num (length (tl (shape arr)))))
         else if max_shape m \<noteq> tl (shape arr) \<or> min_shape m \<noteq> tl (shape arr)
         then Some (NotImplementedError ''Dynamic shapes are not supported yet.'') else None)"
  proof -
    have d: "(meta_dtype m \<noteq> dtype arr) = False" using dt' by simp
    have l: "(length (min_shape m) \<noteq> length (tl (shape arr))) = False"
      by (simp only: rank' simp_thms)
    show ?thesis
      unfolding check_array_and_tensor_are_compatible_def Let_def
      by (simp only: d l if_False rank') simp
  qed
  have run: "add_samples_to_tensor a key st batched
      = (case check_array_and_tensor_are_compatible m arr of
           Some err \<Rightarrow> (Some err, st)
         | None \<Rightarrow>
             (case shape arr of
                [] \<Rightarrow> (Some IndexError, st)
              | n # _ \<Rightarrow>
                  (None, write_tensor_meta key
                     (fold (\<lambda>i s. write_bytes (row_wise_to_bytes (sample_at arr i)) key
                                    (chunk_size m) s (shape (sample_at arr i))) [0..<n] st)
                     (m\<lparr>meta_length := meta_length m + n\<rparr>))))"
    using meta
    by (simp add: add_samples_to_tensor_def tensor_exists_def Let_def arr_def
          split: option.splits list.splits)
  have accepted: "fst (add_samples_to_tensor a key st batched) = None
         \<and> tensor_metas (snd (add_samples_to_tensor a key st batched)) key
             = Some (m\<lparr>meta_length := meta_length m + hd (shape arr)\<rparr>)
         \<and> length (index_maps (snd (add_samples_to_tensor a key st batched)) key)
             = length (index_maps st key) + hd (shape arr)"
    if h: "tl (shape arr) = max_shape m \<and> tl (shape arr) = min_shape m \<and> shape arr \<noteq> []"
  proof -
    obtain n rest where sh: "shape arr = n # rest" using h by (cases "shape arr") auto
    have c: "check_array_and_tensor_are_compatible m arr = None"
      unfolding chk using h by auto
    have r: "add_samples_to_tensor a key st batched
        = (None, write_tensor_meta key
             (fold (\<lambda>i s. write_bytes (row_wise_to_bytes (sample_at arr i)) key
                            (chunk_size m) s (shape (sample_at arr i))) [0..<n] st)
             (m\<lparr>meta_length := meta_length m + n\<rparr>))"
      unfolding run c sh by simp
    show ?thesis
      unfolding r by (simp add: write_tensor_meta_def fold_write_bytes_index_length sh)
  qed
  have dynamic: "add_samples_to_tensor a key st batched
        = (Some (NotImplementedError ''Dynamic shapes are not supported yet.''), st)"
    if h: "length (max_shape m) = length (min_shape m)
           \<and> (tl (shape arr) \<noteq> max_shape m \<or> tl (shape arr) \<noteq> min_shape m)"
  proof -
    have c: "check_array_and_tensor_are_compatible m arr
        = Some (NotImplementedError ''Dynamic shapes are not supported yet.'')"
      unfolding chk using h by auto
    show ?thesis unfolding run c by simp
  qed
  have other_rank: "add_samples_to_tensor a key st batched
        = (Some (TensorMetaMismatchError (Str ''max_shape'') (Shape (max_shape m))
                   (Num (length (tl (shape arr))))), st)"
    if h: "length (max_shape m) \<noteq> length (min_shape m)"
  proof -
    have c: "check_array_and_tensor_are_compatible m arr
        = Some (TensorMetaMismatchError (Str ''max_shape'') (Shape (max_shape m))
                  (Num (length (tl (shape arr)))))"
      unfolding chk using h by simp
    show ?thesis unfolding run c by simp
  qed
  have no_axis: "add_samples_to_tensor a key st batched = (Some IndexError, st)"
    if h: "tl (shape arr) = max_shape m \<and> tl (shape arr) = min_shape m \<and> shape arr = []"
  proof -
    have c: "check_array_and_tensor_are_compatible m arr = None"
      unfolding chk using h by auto
    show ?thesis unfolding run c using h by simp
  qed
  show ?thesis
    unfolding arr_def [symmetric]
    using accepted dynamic other_rank no_axis by blast
qed

theorem append_requires_fixed_shape_witness:
  "add_samples_to_tensor \<lparr>dtype = ''uint8'', shape = [2, 1], buf = [7, 8]\<rparr> ''image''
       \<lparr>tensor_metas = [''image'' \<mapsto> \<lparr>meta_dtype = ''uint8'', meta_length = 0,
                                       min_shape = [2, 2], max_shape = [2, 2],
                                       chunk_size = 16\<rparr>],
         index_maps = (\<lambda>_. []), chunks = (\<lambda>_. [])\<rparr> False
     = (Some (NotImplementedError ''Dynamic shapes are not supported yet.''),
        \<lparr>tensor_metas = [''image'' \<mapsto> \<lparr>meta_dtype = ''uint8'', meta_length = 0,
                                       min_shape = [2, 2], max_shape = [2, 2],
                                       chunk_size = 16\<rparr>],
         index_maps = (\<lambda>_. []), chunks = (\<lambda>_. [])\<rparr>)
   \<and> fst (add_samples_to_tensor
            \<lparr>dtype = ''uint8'', shape = [3, 2, 2], buf = [1, 2, 3, 4, 5, 6, 7, 8, 9, 10, 11, 12]\<rparr>
            ''image''
            \<lparr>tensor_metas = [''image'' \<mapsto> \<lparr>meta_dtype = ''uint8'', meta_length = 0,
                                            min_shape = [2, 2], max_shape = [2, 2],
                                            chunk_size = 16\<rparr>],
              index_maps = (\<lambda>_. []), chunks = (\<lambda>_. [])\<rparr> True) = None
   \<and> tensor_metas (snd (add_samples_to_tensor
            \<lparr>dtype = ''uint8'', shape = [3, 2, 2], buf = [1, 2, 3, 4, 5, 6, 7, 8, 9, 10, 11, 12]\<rparr>
            ''image''
            \<lparr>tensor_metas = [''image'' \<mapsto> \<lparr>meta_dtype = ''uint8'', meta_length = 0,
                                            min_shape = [2, 2], max_shape = [2, 2],
                                            chunk_size = 16\<rparr>],
              index_maps = (\<lambda>_. []), chunks = (\<lambda>_. [])\<rparr> True)) ''image''
       = Some \<lparr>meta_dtype = ''uint8'', meta_length = 3, min_shape = [2, 2], max_shape = [2, 2],
               chunk_size = 16\<rparr>
   \<and> length (index_maps (snd (add_samples_to_tensor
            \<lparr>dtype = ''uint8'', shape = [3, 2, 2], buf = [1, 2, 3, 4, 5, 6, 7, 8, 9, 10, 11, 12]\<rparr>
            ''image''
            \<lparr>tensor_metas = [''image'' \<mapsto> \<lparr>meta_dtype = ''uint8'', meta_length = 0,
                                            min_shape = [2, 2], max_shape = [2, 2],
                                            chunk_size = 16\<rparr>],
              index_maps = (\<lambda>_. []), chunks = (\<lambda>_. [])\<rparr> True)) ''image'') = 3"
proof -
  let ?m = "\<lparr>meta_dtype = ''uint8'', meta_length = 0, min_shape = [2, 2], max_shape = [2, 2],
          chunk_size = 16\<rparr>"
  let ?st = "\<lparr>tensor_metas = [''image'' \<mapsto> ?m], index_maps = (\<lambda>_. []), chunks = (\<lambda>_. [])\<rparr>"
  let ?a = "\<lparr>dtype = ''uint8'', shape = [2, 1], buf = [7, 8]\<rparr>"
  let ?b = "\<lparr>dtype = ''uint8'', shape = [3, 2, 2],
          buf = [1, 2, 3, 4, 5, 6, 7, 8, 9, 10, 11, 12]\<rparr>"
  have meta: "tensor_metas ?st ''image'' = Some ?m" by simp
  have da: "dtype ?a = meta_dtype ?m" and db: "dtype ?b = meta_dtype ?m" by simp_all
  have sa: "shape (normalize_and_batchify_shape ?a False) = [1, 2, 1]"
    and sb: "shape (normalize_and_batchify_shape ?b True) = [3, 2, 2]"
    by (simp_all add: normalize_and_batchify_shape_def)
  have ra: "length (tl (shape (normalize_and_batchify_shape ?a False))) = length (min_shape ?m)"
    unfolding sa by simp
  have rb: "length (tl (shape (normalize_and_batchify_shape ?b True))) = length (min_shape ?m)"
    unfolding sb by simp
  note ta = append_requires_fixed_shape [OF meta da ra, unfolded sa]
  note tb = append_requires_fixed_shape [OF meta db rb, unfolded sb]
  have refused: "add_samples_to_tensor ?a ''image'' ?st False
      = (Some (NotImplementedError ''Dynamic shapes are not supported yet.''), ?st)"
    using ta by simp
  have accepted: "fst (add_samples_to_tensor ?b ''image'' ?st True) = None
      \<and> tensor_metas (snd (add_samples_to_tensor ?b ''image'' ?st True)) ''image''
          = Some (?m\<lparr>meta_length := meta_length ?m + hd [3, 2, 2]\<rparr>)
      \<and> length (index_maps (snd (add_samples_to_tensor ?b ''image'' ?st True)) ''image'')
          = length (index_maps ?st ''image'') + hd [3, 2, 2]"
    using conjunct1 [OF tb] by simp
  show ?thesis using refused accepted by simp
qed

section \<open>The length of a dataset\<close>

lemma tensor_lengths_all:
  assumes "\<forall>k \<in> set ks. tensor_exists k st"
  shows "tensor_lengths st ks = Inr (map (\<lambda>k. meta_length (the (tensor_metas st k))) ks)"
  using assms by (induction ks) (auto simp: Tensor_len_def tensor_exists_def)

lemma min_default_Min: "min_default ns d = (if ns = [] then d else Min (set ns))"
proof (cases ns)
  case Nil
  then show ?thesis by (simp add: min_default_def)
next
  case (Cons x rest)
  have "fold min rest x = Min (set (x # rest))" by (rule Min.set_eq_fold [symmetric])
  then show ?thesis by (simp add: min_default_def Cons)
qed

lemma add_samples_metas:
  assumes "add_samples_to_tensor a key st batched = (None, st')"
  shows "\<exists>m n. tensor_metas st key = Some m
            \<and> tensor_metas st' = (tensor_metas st)(key \<mapsto> m\<lparr>meta_length := meta_length m + n\<rparr>)
            \<and> shape (normalize_and_batchify_shape a batched)
                = n # tl (shape (normalize_and_batchify_shape a batched))"
  using assms
  by (auto simp: add_samples_to_tensor_def tensor_exists_def Let_def write_tensor_meta_def
        fold_write_bytes_metas split: option.splits list.splits if_splits)

text \<open>
  C10. When every tensor of the dataset has its meta in the storage, \<open>len(ds)\<close> is 0 for a
  dataset without tensors and otherwise the least of the lengths of its tensors: it is at
  most the length of every tensor and is the length of one of them, so extending one
  tensor leaves it at the length of the shortest.
\<close>

theorem dataset_len_is_min:
  assumes "\<forall>k \<in> set (tensors ds). tensor_exists k (ds_storage ds)"
  shows "Dataset_len ds
           = Inr (if tensors ds = [] then 0
                  else Min ((\<lambda>k. meta_length (the (tensor_metas (ds_storage ds) k)))
                            ` set (tensors ds)))
         \<and> (\<forall>n. Dataset_len ds = Inr n \<longrightarrow>
               (\<forall>k \<in> set (tensors ds). Tensor_len k (ds_storage ds) \<noteq> Inl KeyError
                    \<and> (\<forall>l. Tensor_len k (ds_storage ds) = Inr l \<longrightarrow> n \<le> l))
               \<and> (tensors ds \<noteq> [] \<longrightarrow>
                    (\<exists>k \<in> set (tensors ds). Tensor_len k (ds_storage ds) = Inr n)))"
proof -
  let ?len = "\<lambda>k. meta_length (the (tensor_metas (ds_storage ds) k))"
  let ?n = "if tensors ds = [] then 0 else Min (?len ` set (tensors ds))"
  have len: "Dataset_len ds = Inr ?n"
    by (simp add: Dataset_len_def tensor_lengths_all [OF assms] min_default_Min)
  have tl: "Tensor_len k (ds_storage ds) = Inr (?len k)" if "k \<in> set (tensors ds)" for k
    using assms that by (auto simp: Tensor_len_def tensor_exists_def)
  have le: "?n \<le> ?len k" if "k \<in> set (tensors ds)" for k
    using that by (auto intro: Min_le)
  have ex: "\<exists>k \<in> set (tensors ds). ?len k = ?n" if "tensors ds \<noteq> []"
  proof -
    have "Min (?len ` set (tensors ds)) \<in> ?len ` set (tensors ds)"
      using that by (intro Min_in) simp_all
    then obtain k where "k \<in> set (tensors ds)" and "Min (?len ` set (tensors ds)) = ?len k"
      by blast
    then show ?thesis using that by auto
  qed
  show ?thesis
    unfolding len using tl le ex by (auto simp del: Min_le_iff Min_ge_iff)
qed

theorem dataset_len_is_min_witness:
  "Dataset_len
     \<lparr>ds_storage = snd (add_samples_to_tensor
          \<lparr>dtype = ''uint8'', shape = [3, 2], buf = [1, 2, 3, 4, 5, 6]\<rparr> ''image''
          \<lparr>tensor_metas = [''image'' \<mapsto> \<lparr>meta_dtype = ''uint8'', meta_length = 0,
                                          min_shape = [2], max_shape = [2], chunk_size = 4\<rparr>,
                            ''label'' \<mapsto> \<lparr>meta_dtype = ''uint8'', meta_length = 2,
                                          min_shape = [], max_shape = [], chunk_size = 4\<rparr>],
            index_maps = (\<lambda>_. []), chunks = (\<lambda>_. [])\<rparr> True),
       tensors = [''image'', ''label'']\<rparr> = Inr 2"
proof -
  let ?st = "\<lparr>tensor_metas = [''image'' \<mapsto> \<lparr>meta_dtype = ''uint8'', meta_length = 0,
                                          min_shape = [2], max_shape = [2], chunk_size = 4\<rparr>,
                            ''label'' \<mapsto> \<lparr>meta_dtype = ''uint8'', meta_length = 2,
                                          min_shape = [], max_shape = [], chunk_size = 4\<rparr>],
            index_maps = (\<lambda>_. []), chunks = (\<lambda>_. [])\<rparr>"
  let ?a = "\<lparr>dtype = ''uint8'', shape = [3, 2], buf = [1, 2, 3, 4, 5, 6]\<rparr>"
  have metas: "tensor_metas (snd (add_samples_to_tensor ?a ''image'' ?st True))
      = [''image'' \<mapsto> \<lparr>meta_dtype = ''uint8'', meta_length = 3,
                                          min_shape = [2], max_shape = [2], chunk_size = 4\<rparr>,
         ''label'' \<mapsto> \<lparr>meta_dtype = ''uint8'', meta_length = 2,
                                          min_shape = [], max_shape = [], chunk_size = 4\<rparr>]"
    by (simp add: add_samples_to_tensor_def tensor_exists_def Let_def write_tensor_meta_def
          fold_write_bytes_metas check_array_and_tensor_are_compatible_def
          normalize_and_batchify_shape_def fun_upd_twist)
  show ?thesis
    using dataset_len_is_min [of "\<lparr>ds_storage = snd (add_samples_to_tensor ?a ''image'' ?st True),
       tensors = [''image'', ''label'']\<rparr>"]
    by (simp add: metas tensor_exists_def)
qed

section \<open>Eviction on a full cache\<close>

lemma ensure_capacity_enough:
  "cache_used c + need \<le> max_cache_size c \<Longrightarrow> ensure_capacity c need = Inr c"
  by (subst ensure_capacity.simps) simp

text \<open>
  C3. A cache of 32 MB holds the dirty keys \<open>F1\<close> (oldest) and \<open>F2\<close> with 16 MB each and
  nothing is in \<open>next_storage\<close>. Setting a third key \<open>F3\<close> to 16 MB evicts exactly \<open>F1\<close>
  and writes its cached bytes to \<open>next_storage\<close> first: afterwards the dirty keys and the
  cached keys are \<open>F2\<close> and \<open>F3\<close>, \<open>next_storage\<close> holds \<open>F1\<close> alone with its bytes, and
  32 MB of the cache are used. \<open>MB\<close> is any positive number of bytes.
\<close>

theorem set_evicts_oldest_dirty:
  assumes mb: "0 < MB"
    and max: "max_cache_size c = 32 * MB"
    and lru: "lru_sizes c = [(F1, 16 * MB), (F2, 16 * MB)]"
    and dirty: "dirty_keys c = {F1, F2}"
    and cached: "cache_storage c = [F1 \<mapsto> v1, F2 \<mapsto> v2]"
    and nxt: "next_storage c = Map.empty"
    and used: "cache_used c = 32 * MB"
    and keys: "F1 \<noteq> F2" "F3 \<noteq> F1" "F3 \<noteq> F2"
    and len: "length v3 = 16 * MB"
  shows "\<exists>c'. cache_set c F3 v3 = Inr c'
           \<and> dirty_keys c' = {F3, F2}
           \<and> cache_storage c' = [F2 \<mapsto> v2, F3 \<mapsto> v3]
           \<and> dom (cache_storage c') = {F3, F2}
           \<and> next_storage c' = [F1 \<mapsto> v1]
           \<and> dom (next_storage c') = {F1}
           \<and> lru_sizes c' = [(F2, 16 * MB), (F3, 16 * MB)]
           \<and> cache_used c' = 32 * MB"
proof -
  define c1 where "c1 = c\<lparr>next_storage := (next_storage c)(F1 \<mapsto> v1),
                          dirty_keys := dirty_keys c - {F1},
                          cache_storage := (cache_storage c)(F1 := None),
                          lru_sizes := [(F2, 16 * MB)],
                          cache_used := cache_used c - 16 * MB\<rparr>"
  have ev: "evict_oldest c = Inr c1"
    using keys by (simp add: evict_oldest_def lru dirty cached provider_get_def c1_def)
  have full: "max_cache_size c < cache_used c + 16 * MB \<and> lru_sizes c \<noteq> []"
    using mb by (simp add: max used lru)
  have fits: "cache_used c1 + 16 * MB \<le> max_cache_size c1"
    by (simp add: c1_def max used)
  have ec: "ensure_capacity c (16 * MB) = Inr c1"
    using full ev ensure_capacity_enough [OF fits]
    by (subst ensure_capacity.simps) simp
  have miss: "map_of (lru_sizes c) F3 = None"
    using keys by (simp add: lru)
  define c' where "c' = c1\<lparr>cache_storage := (cache_storage c1)(F3 \<mapsto> v3),
                            lru_sizes := lru_sizes c1 @ [(F3, length v3)],
                            dirty_keys := insert F3 (dirty_keys c1),
                            cache_used := cache_used c1 + length v3\<rparr>"
  have set: "cache_set c F3 v3 = Inr c'"
    by (simp add: cache_set_def miss len ec c'_def)
  have d: "dirty_keys c' = {F3, F2}"
    using keys by (auto simp: c'_def c1_def dirty)
  have cs: "cache_storage c' = [F2 \<mapsto> v2, F3 \<mapsto> v3]"
    using keys by (auto simp: c'_def c1_def cached fun_eq_iff)
  have ns: "next_storage c' = [F1 \<mapsto> v1]"
    by (simp add: c'_def c1_def nxt)
  have l: "lru_sizes c' = [(F2, 16 * MB), (F3, 16 * MB)]"
    by (simp add: c'_def c1_def len)
  have u: "cache_used c' = 32 * MB"
    by (simp add: c'_def c1_def used len)
  have dcs: "dom (cache_storage c') = {F3, F2}" unfolding cs by auto
  have dns: "dom (next_storage c') = {F1}" unfolding ns by simp
  show ?thesis using set d cs dcs ns dns l u by blast
qed


theorem set_evicts_oldest_dirty_witness:
  "\<exists>c'. cache_set
          \<lparr>cache_storage =
             [''file_1'' \<mapsto> concat (replicate 1000000
                                 [48, 49, 50, 51, 52, 53, 54, 55, 56, 57, 49, 50, 51, 52, 53, 54]),
              ''file_2'' \<mapsto> concat (replicate 1000000
                                 [48, 49, 50, 51, 52, 53, 54, 55, 56, 57, 49, 50, 51, 52, 53, 54])],
           next_storage = Map.empty, max_cache_size = 32 * 1000000,
           lru_sizes = [(''file_1'', 16 * 1000000), (''file_2'', 16 * 1000000)],
           dirty_keys = {''file_1'', ''file_2''}, cache_used = 32 * 1000000\<rparr>
          ''file_3''
          (concat (replicate 1000000
                     [48, 49, 50, 51, 52, 53, 54, 55, 56, 57, 49, 50, 51, 52, 53, 54])) = Inr c'
        \<and> dirty_keys c' = {''file_3'', ''file_2''}
        \<and> dom (cache_storage c') = {''file_3'', ''file_2''}
        \<and> dom (next_storage c') = {''file_1''}
        \<and> cache_used c' = 32 * 1000000"
proof -
  let ?v = "concat (replicate 1000000
              [48, 49, 50, 51, 52, 53, 54, 55, 56, 57, 49, 50, 51, 52, 53, 54 :: byte])"
  let ?c = "\<lparr>cache_storage = [''file_1'' \<mapsto> ?v, ''file_2'' \<mapsto> ?v],
       next_storage = Map.empty, max_cache_size = 32 * 1000000,
       lru_sizes = [(''file_1'', 16 * 1000000), (''file_2'', 16 * 1000000)],
       dirty_keys = {''file_1'', ''file_2''}, cache_used = 32 * 1000000\<rparr>"
  have len: "length ?v = 16 * 1000000"
    by (simp add: length_concat sum_list_replicate)
  show ?thesis
    using set_evicts_oldest_dirty [of 1000000 ?c "''file_1''" "''file_2''" ?v ?v "''file_3''" ?v,
            OF _ _ _ _ _ _ _ _ _ _ len]
    by auto
qed


section \<open>Writers, readers and flush\<close>









end
